theory Spec2Isabelle
  imports Complex_Main "HOL-Library.Char_ord" "HOL-Library.List_Lexorder" "HOL-Library.Multiset"
    "HOL-Library.Monad_Syntax"
begin

section \<open>Types of \<^verbatim>\<open>RFTFluency3D.tsx\<close>\<close>

text \<open>
  The string-literal union types of the component are datatypes; the functions
  \<open>colorName\<close>, \<open>shapeName\<close>, \<open>sizeName\<close> and \<open>positionName\<close> give the JavaScript string
  each value is at run time. Fields and constructors whose source name is a constant of
  HOL already (\<open>size\<close>, \<open>id\<close>) carry the suffix \<open>_st\<close>; the constructors of \<open>Attribute\<close>
  are capitalised, because \<open>color\<close>, \<open>shape\<close> and \<open>position\<close> are fields of \<open>Stimulus\<close> too.
\<close>

datatype Attribute = Color | Shape | Size | Position
datatype ShapeType = cube | sphere | tetrahedron
datatype ColorType = red | blue | green
datatype SizeType = small | medium | large
datatype PositionType = left | center | right
datatype PerspectiveType = symbolic | spatial
datatype SpatialRepType = rotation | folding | cutout | instant
datatype ObserverPos = me | opposite
datatype SpatialMatchMode = view | object
datatype UserAction = match | non_match

fun colorName :: "ColorType \<Rightarrow> string" where
  "colorName red = ''red''"
| "colorName blue = ''blue''"
| "colorName green = ''green''"

fun shapeName :: "ShapeType \<Rightarrow> string" where
  "shapeName cube = ''cube''"
| "shapeName sphere = ''sphere''"
| "shapeName tetrahedron = ''tetrahedron''"

fun sizeName :: "SizeType \<Rightarrow> string" where
  "sizeName small = ''small''"
| "sizeName medium = ''medium''"
| "sizeName large = ''large''"

fun positionName :: "PositionType \<Rightarrow> string" where
  "positionName left = ''left''"
| "positionName center = ''center''"
| "positionName right = ''right''"

fun attributeName :: "Attribute \<Rightarrow> string" where
  "attributeName Color = ''color''"
| "attributeName Shape = ''shape''"
| "attributeName Size = ''size''"
| "attributeName Position = ''position''"

record Stimulus =
  color :: ColorType
  backColor :: ColorType
  netColors :: "ColorType list"
  shape :: ShapeType
  size_st :: SizeType
  position :: PositionType
  id_st :: int
  stroopText :: string
  stroopInk :: ColorType
  observerPos :: ObserverPos

record GameHistory =
  date :: string
  timestamp :: int
  score_h :: int
  accuracy_h :: rat
  maxNBack :: int

subsection \<open>Constants\<close>

definition ALL_ATTRIBUTES :: "Attribute list" where
  "ALL_ATTRIBUTES = [Color, Shape, Size, Position]"

definition COLORS :: "ColorType list" where
  "COLORS = [red, blue, green]"

definition SHAPES :: "ShapeType list" where
  "SHAPES = [cube, sphere, tetrahedron]"

definition SIZES :: "SizeType list" where
  "SIZES = [small, medium, large]"

definition POSITIONS :: "PositionType list" where
  "POSITIONS = [left, center, right]"

definition STROOP_WORDS :: "string list" where
  "STROOP_WORDS = [''RED'', ''BLUE'', ''GREEN'']"

definition INTERVAL_MS :: nat where
  "INTERVAL_MS = 3500"

definition BLOCK_SIZE :: nat where
  "BLOCK_SIZE = 20"

subsection \<open>Player configuration\<close>

text \<open>
  The \<open>useState\<close> cells that hold the player's options. A function of the component reads
  them, and the level \<open>nBack\<close>, from the render it was created in. The functions the
  interface calls (\<open>startGame\<close>, \<open>stopGame\<close>, \<open>handleInput\<close>, \<open>toggleRule\<close>, the level
  buttons, the timeout effect) see the live level: the buttons are rendered anew each
  time, the key listener is set up again whenever \<open>isPlaying\<close>, \<open>isSwapped\<close>,
  \<open>currentRule\<close> or \<open>nBack\<close> change, and the effect runs in the render in which the
  countdown changed. Each of them takes the options of its render as the argument \<open>cfg\<close>.
  The callback of the turn timer is different: \<open>nextTurn\<close> is a \<open>useCallback\<close> that re-arms
  itself, so a pending timer runs the \<open>nextTurn\<close> of the render that armed it, with the
  options and the level that render had. The model passes these to \<open>nextTurn\<close> as
  arguments and keeps them with the pending timer.
\<close>

record Config =
  activeRules :: "Attribute list"
  perspectiveMode :: bool
  perspectiveType :: PerspectiveType
  spatialType :: SpatialRepType
  spatialMatchMode :: SpatialMatchMode
  showStroop :: bool
  distractorsEnabled :: bool
  controlSwapEnabled :: bool
  useTimer :: bool
  gameDurationSeconds :: int
  autoProgress :: bool

section \<open>Perspective transformer\<close>

text \<open>
  \<open>stim[rule]\<close>: the raw attribute of a stimulus, as the string JavaScript compares.
\<close>

fun stimAttr :: "Stimulus \<Rightarrow> Attribute \<Rightarrow> string" where
  "stimAttr stim Color = colorName (color stim)"
| "stimAttr stim Shape = shapeName (shape stim)"
| "stimAttr stim Size = sizeName (size_st stim)"
| "stimAttr stim Position = positionName (position stim)"

text \<open>
  \<open>perspectiveMapping.current\<close> is a table of tables, both keyed by strings; the outer keys
  are the four attribute names, so the outer map is keyed by \<open>Attribute\<close>.

  \<open>getTransformedValue\<close> returns \<open>any\<close>: a string, or \<open>undefined\<close> when a relabeling table has
  no entry for the raw value. The model returns \<open>string option\<close>, with \<open>None\<close> for
  \<open>undefined\<close>. \<open>[a, b].sort()\<close> compares strings by code unit, which for these ASCII names is
  the lexicographic order on \<open>string\<close>; \<open>join("-")\<close> of the two elements is written out.
\<close>

type_synonym PerspectiveMapping = "Attribute \<rightharpoonup> (string \<rightharpoonup> string)"

definition joinDash :: "string list \<Rightarrow> string" where
  "joinDash c = (case c of [] \<Rightarrow> '''' | x # xs \<Rightarrow> foldl (\<lambda>acc y. acc @ ''-'' @ y) x xs)"

definition getTransformedValue ::
    "Config \<Rightarrow> PerspectiveMapping \<Rightarrow> Stimulus \<Rightarrow> Attribute \<Rightarrow> string option" where
  "getTransformedValue cfg pm stim rule =
    (if \<not> perspectiveMode cfg then Some (stimAttr stim rule)
     else if perspectiveType cfg = symbolic then
       (if observerPos stim = me then Some (stimAttr stim rule)
        else (let rawValue = stimAttr stim rule in
              case pm rule of
                Some m \<Rightarrow> m rawValue
              | None \<Rightarrow> Some rawValue))
     else if perspectiveType cfg = spatial then
       (if rule = Position then
          (if spatialMatchMode cfg = object then Some (positionName (position stim))
           else if observerPos stim = me then Some (positionName (position stim))
           else if position stim = left then Some ''right''
           else if position stim = right then Some ''left''
           else Some ''center'')
        else if rule = Color then
          (if spatialMatchMode cfg = object then
             (let c = sort [colorName (color stim), colorName (backColor stim)]
              in Some (joinDash c))
           else Some (if observerPos stim = me then colorName (color stim)
                      else colorName (backColor stim)))
        else Some (stimAttr stim rule))
     else Some (stimAttr stim rule))"

section \<open>Symbolic relabeling tables\<close>

text \<open>
  \<open>generateCyclicMapping\<close> shuffles with \<open>[...values].sort(() => Math.random() - 0.5)\<close> until
  no element is at its own index. What \<open>sort\<close> does with an inconsistent comparator is up to
  the engine, but it returns a permutation of the array. The outcomes of the successive
  \<open>sort\<close> calls are an input of the model: a list of candidate arrays, consumed one per
  iteration of the \<open>while\<close> loop. A candidate that is not a permutation of \<open>values\<close> is not
  a possible outcome of \<open>sort\<close>, and the model returns \<open>None\<close> there, as it does when the
  candidates run out before one passes (the loop has not ended yet).
\<close>

type_synonym Shuffles = "string list list"

definition hasFixedPoint :: "string list \<Rightarrow> string list \<Rightarrow> bool" where
  "hasFixedPoint values shuffled =
     list_ex (\<lambda>i. values ! i = shuffled ! i) [0..<length values]"

definition buildMap :: "string list \<Rightarrow> string list \<Rightarrow> (string \<rightharpoonup> string)" where
  "buildMap values shuffled =
     fold (\<lambda>i m. m(values ! i \<mapsto> shuffled ! i)) [0..<length values] Map.empty"

fun generateCyclicMapping ::
    "string list \<Rightarrow> Shuffles \<Rightarrow> ((string \<rightharpoonup> string) \<times> Shuffles) option" where
  "generateCyclicMapping values [] = None"
| "generateCyclicMapping values (shuffled # rest) =
     (if mset shuffled \<noteq> mset values then None
      else if hasFixedPoint values shuffled then generateCyclicMapping values rest
      else Some (buildMap values shuffled, rest))"

definition scramblePerspectiveRules :: "Shuffles \<Rightarrow> (PerspectiveMapping \<times> Shuffles) option" where
  "scramblePerspectiveRules sh0 = do {
     (mc, sh1) \<leftarrow> generateCyclicMapping (map colorName COLORS) sh0;
     (ms, sh2) \<leftarrow> generateCyclicMapping (map shapeName SHAPES) sh1;
     (mz, sh3) \<leftarrow> generateCyclicMapping (map sizeName SIZES) sh2;
     (mp, sh4) \<leftarrow> generateCyclicMapping (map positionName POSITIONS) sh3;
     Some ([Color \<mapsto> mc, Shape \<mapsto> ms, Size \<mapsto> mz, Position \<mapsto> mp], sh4)
   }"

text \<open>The array \<open>scramblePerspectiveRules\<close> passes for each attribute.\<close>

definition attributeValues :: "Attribute \<Rightarrow> string list" where
  "attributeValues rule =
     (case rule of Color \<Rightarrow> map colorName COLORS | Shape \<Rightarrow> map shapeName SHAPES
      | Size \<Rightarrow> map sizeName SIZES | Position \<Rightarrow> map positionName POSITIONS)"

section \<open>Session state\<close>

text \<open>
  A pending \<open>setTimeout\<close> of \<open>nextTurn\<close>: its delay in milliseconds, and the options and
  the level of the render whose \<open>nextTurn\<close> it will call.
\<close>

record PendingTurn =
  delay :: nat
  renderConfig :: Config
  renderNBack :: int

text \<open>
  The refs and \<open>useState\<close> cells the trial logic reads and writes. \<open>score\<close> and \<open>scoreRef\<close> are
  the two copies of the score the component keeps. \<open>nBack\<close> is the live level, the one
  \<open>setNBack\<close> updates. \<open>turnTimer\<close> is the pending \<open>setTimeout\<close> of \<open>nextTurn\<close>
  (\<open>None\<close>: nothing pending); \<open>gameIntervalRef\<close> says
  whether the one-second countdown interval is set (the handle itself is only tested for
  being defined and cleared). \<open>storedHistory\<close> is the item \<open>rft_fluency_3d_history\<close> of
  \<open>localStorage\<close>, parsed; \<open>None\<close> when the item is absent. The cells that only feed the
  rendering (feedback and level-up messages, the mesh, \<open>currentStimulus\<close> and
  \<open>stimulusHistory\<close>, which copy \<open>historyRef\<close>) are left out.

  JavaScript numbers are doubles. The counters are natural numbers here, the level, the
  scores and the times integers, and an accuracy percentage is an exact rational.
\<close>

record State =
  isPlaying :: bool
  score :: int
  scoreRef :: int
  timeLeftSeconds :: int
  nBack :: int
  currentRule :: Attribute
  isSwapped :: bool
  historyRef :: "Stimulus list"
  blockTurnCount :: nat
  blockMistakes :: nat
  totalMistakes :: nat
  totalTurns :: nat
  hasResponded :: bool
  perspectiveMapping :: PerspectiveMapping
  lastStroopText :: string
  turnTimer :: "PendingTurn option"
  gameIntervalRef :: bool
  storedHistory :: "GameHistory list option"

section \<open>Random draws\<close>

text \<open>
  Each call of \<open>Math.random()\<close> takes the next element of a list of draws; \<open>None\<close> means the
  list is used up. \<open>Math.random()\<close> returns a number in \<open>[0, 1)\<close>, so a draw outside that
  interval is not a possible input and gives \<open>None\<close> too, as does an index past the end of
  the array (only an empty array can cause it).
\<close>

type_synonym Draws = "rat list"

fun random :: "Draws \<Rightarrow> (rat \<times> Draws) option" where
  "random [] = None"
| "random (r # rs) = (if 0 \<le> r \<and> r < 1 then Some (r, rs) else None)"

definition randomElement :: "'a list \<Rightarrow> Draws \<Rightarrow> ('a \<times> Draws) option" where
  "randomElement xs rs = do {
     (r, rs') \<leftarrow> random rs;
     let i = nat \<lfloor>r * of_nat (length xs)\<rfloor>;
     if i < length xs then Some (xs ! i, rs') else None
   }"

fun randomElements :: "'a list \<Rightarrow> nat \<Rightarrow> Draws \<Rightarrow> ('a list \<times> Draws) option" where
  "randomElements xs 0 rs = Some ([], rs)"
| "randomElements xs (Suc n) rs = do {
     (x, rs') \<leftarrow> randomElement xs rs;
     (ys, rs'') \<leftarrow> randomElements xs n rs';
     Some (x # ys, rs'')
   }"

section \<open>Stimulus generator\<close>

text \<open>\<open>while (backColor === color) backColor = COLORS[...]\<close>, one draw per iteration.\<close>

fun redrawBackColor :: "ColorType \<Rightarrow> ColorType \<Rightarrow> Draws \<Rightarrow> (ColorType \<times> Draws) option" where
  "redrawBackColor c bc [] = (if bc = c then None else Some (bc, []))"
| "redrawBackColor c bc (r # rs) =
     (if bc = c then
        (case randomElement COLORS (r # rs) of
           None \<Rightarrow> None
         | Some (bc', _) \<Rightarrow> redrawBackColor c bc' rs)
      else Some (bc, r # rs))"

text \<open>
  \<open>generateStimulus\<close> reads the configuration, the ref \<open>lastStroopText\<close> and the clock
  (\<open>Date.now()\<close>, here \<open>now\<close>), and returns the stimulus, the new \<open>lastStroopText\<close> and the
  draws left.
\<close>

definition generateStimulus ::
    "Config \<Rightarrow> string \<Rightarrow> int \<Rightarrow> Draws \<Rightarrow> (Stimulus \<times> string \<times> Draws) option" where
  "generateStimulus cfg lastText now rs0 = do {
     (c, rs1) \<leftarrow> randomElement COLORS rs0;
     (bc0, rs2) \<leftarrow> randomElement COLORS rs1;
     (bc, rs3) \<leftarrow> redrawBackColor c bc0 rs2;
     (net0, rs4) \<leftarrow> randomElements COLORS 6 rs3;
     let net = net0[2 := c, 5 := bc];
     let varyShape = (Shape \<in> set (activeRules cfg) \<or> distractorsEnabled cfg);
     (shape0, rs5) \<leftarrow> (if varyShape then randomElement SHAPES rs4 else Some (cube, rs4));
     (sh, rs6) \<leftarrow>
       (if perspectiveMode cfg \<and> perspectiveType cfg = spatial \<and> spatialType cfg \<noteq> cutout
          then Some (cube, rs5)
        else if perspectiveMode cfg \<and> perspectiveType cfg = spatial \<and> spatialType cfg = cutout
          then do { (r, rs') \<leftarrow> random rs5; Some (if r > 1 / 2 then cube else sphere, rs') }
        else Some (shape0, rs5));
     let varySize = (Size \<in> set (activeRules cfg) \<or> distractorsEnabled cfg);
     (sz, rs7) \<leftarrow> (if varySize then randomElement SIZES rs6 else Some (medium, rs6));
     let varyPos = (Position \<in> set (activeRules cfg) \<or> distractorsEnabled cfg);
     (pos, rs8) \<leftarrow> (if varyPos then randomElement POSITIONS rs7 else Some (center, rs7));
     (text0, rs9) \<leftarrow> randomElement STROOP_WORDS rs8;
     (text1, rs10) \<leftarrow>
       (if text0 = lastText then randomElement STROOP_WORDS rs9 else Some (text0, rs9));
     (ink, rs11) \<leftarrow> randomElement COLORS rs10;
     (ro, rs12) \<leftarrow> random rs11;
     Some (\<lparr> color = c, backColor = bc, netColors = net, shape = sh, size_st = sz,
             position = pos, id_st = now, stroopText = text1, stroopInk = ink,
             observerPos = (if ro > 3 / 10 then me else opposite) \<rparr>,
           text1, rs12)
   }"

section \<open>Adaptive difficulty controller\<close>

text \<open>
  \<open>((turns - mistakes) / turns) * 100\<close>. Both callers reach it with \<open>turns > 0\<close> only. The
  value is the exact quotient where JavaScript has its nearest double; for counters of
  any size a session can reach (below \<open>2^50\<close>), the double is at least 80, or under 50, exactly
  when the quotient is.
\<close>

definition accuracyPercent :: "nat \<Rightarrow> nat \<Rightarrow> rat" where
  "accuracyPercent turns mistakes = (of_int (int turns - int mistakes) / of_nat turns) * 100"

text \<open>
  \<open>checkProgression\<close> is called by \<open>nextTurn\<close> only and belongs to the same render: \<open>cfg\<close>
  and \<open>n\<close> are the options and the level of that render, read by the tests
  \<open>!autoProgress\<close>, \<open>useTimer\<close> and \<open>nBack > 1\<close>. The updates \<open>setNBack(n => n + 1)\<close> and
  \<open>setNBack(n => n - 1)\<close> act on the live level \<open>nBack s\<close>.
\<close>

definition checkProgression :: "Config \<Rightarrow> int \<Rightarrow> State \<Rightarrow> State" where
  "checkProgression cfg n s =
    (if \<not> autoProgress cfg \<or> blockTurnCount s < BLOCK_SIZE \<or> useTimer cfg then s
     else
       (let accuracy = accuracyPercent (blockTurnCount s) (blockMistakes s);
            s1 = (if accuracy \<ge> 80 then s\<lparr> nBack := nBack s + 1 \<rparr>
                  else if accuracy < 50 \<and> n > 1 then s\<lparr> nBack := nBack s - 1 \<rparr>
                  else s)
        in s1\<lparr> blockTurnCount := 0, blockMistakes := 0 \<rparr>))"

section \<open>Trial sequencer\<close>

definition startTimer :: "State \<Rightarrow> State" where
  "startTimer s = (if gameIntervalRef s then s else s\<lparr> gameIntervalRef := True \<rparr>)"

text \<open>The callback of the countdown interval: \<open>setTimeLeftSeconds(prev => prev - 1)\<close>.\<close>

definition tick :: "State \<Rightarrow> State" where
  "tick s = s\<lparr> timeLeftSeconds := timeLeftSeconds s - 1 \<rparr>"

text \<open>
  The first block of \<open>nextTurn\<close>: the check for a missed target of the previous turn. The
  level it compares the history with is \<open>n\<close>, the level of the render of this \<open>nextTurn\<close>.
\<close>

definition isMiss :: "bool \<Rightarrow> int \<Rightarrow> State \<Rightarrow> bool" where
  "isMiss isReset n s \<longleftrightarrow>
     \<not> isReset \<and> int (length (historyRef s)) > n \<and> \<not> hasResponded s"

definition missCheck :: "bool \<Rightarrow> int \<Rightarrow> State \<Rightarrow> State" where
  "missCheck isReset n s =
    (if isMiss isReset n s then
       s\<lparr> score := score s - 5, scoreRef := scoreRef s - 5,
          totalMistakes := totalMistakes s + 1, blockMistakes := blockMistakes s + 1 \<rparr>
     else s)"

text \<open>
  \<open>nextTurn\<close> of the render with options \<open>cfg\<close> and level \<open>n\<close>: the miss check,
  \<open>checkProgression\<close>, then the draws in the order the source makes them (control swap,
  rule, stimulus), the append to the history, the start of the countdown, the counters and
  the new \<open>setTimeout\<close>, which arms this same \<open>nextTurn\<close> again. Every \<open>nBack\<close> the body reads
  is \<open>n\<close>; the state's \<open>nBack\<close> is only written, by \<open>checkProgression\<close>.
\<close>

definition nextTurn ::
    "Config \<Rightarrow> int \<Rightarrow> int \<Rightarrow> Draws \<Rightarrow> bool \<Rightarrow> State \<Rightarrow> (State \<times> Draws) option" where
  "nextTurn cfg n now rs isReset s = do {
     let s1 = missCheck isReset n s;
     let s2 = checkProgression cfg n s1;
     (swap, rs1) \<leftarrow>
       (if controlSwapEnabled cfg
          then do { (r, rs') \<leftarrow> random rs; Some (r < 35 / 100, rs') }
        else Some (False, rs));
     (newRule, rs2) \<leftarrow> randomElement (activeRules cfg) rs1;
     (stim, lastText, rs3) \<leftarrow> generateStimulus cfg (lastStroopText s2) now rs2;
     let s3 = s2\<lparr> isSwapped := swap, currentRule := newRule, lastStroopText := lastText,
                 historyRef := historyRef s2 @ [stim] \<rparr>;
     let s4 = (if useTimer cfg \<and> \<not> gameIntervalRef s3 \<and> int (length (historyRef s3)) > n
               then startTimer s3 else s3);
     Some (s4\<lparr> totalTurns := totalTurns s4 + 1, blockTurnCount := blockTurnCount s4 + 1,
               hasResponded := False,
               turnTimer := Some \<lparr> delay = INTERVAL_MS, renderConfig = cfg,
                                   renderNBack = n \<rparr> \<rparr>, rs3)
   }"

text \<open>
  The pending timer fires: \<open>nextTurn\<close> of the render that armed it runs, with no argument,
  so \<open>isReset\<close> is false. With nothing pending nothing happens.
\<close>

definition turnTimerFires :: "int \<Rightarrow> Draws \<Rightarrow> State \<Rightarrow> (State \<times> Draws) option" where
  "turnTimerFires now rs s =
    (case turnTimer s of
       None \<Rightarrow> Some (s, rs)
     | Some p \<Rightarrow> nextTurn (renderConfig p) (renderNBack p) now rs False s)"

text \<open>
  \<open>startGame\<close> of the current render, with options \<open>cfg\<close> and the live level, calls the
  \<open>nextTurn\<close> of that render.
\<close>

definition startGame ::
    "Config \<Rightarrow> int \<Rightarrow> Shuffles \<Rightarrow> Draws \<Rightarrow> State \<Rightarrow> (State \<times> Shuffles \<times> Draws) option" where
  "startGame cfg now sh rs s =
    (if length (activeRules cfg) = 0 then Some (s, sh, rs)
     else do {
       (pm, sh') \<leftarrow>
         (if perspectiveMode cfg then scramblePerspectiveRules sh
          else Some (perspectiveMapping s, sh));
       let s1 = s\<lparr> perspectiveMapping := pm, isPlaying := True, score := 0, scoreRef := 0,
                   historyRef := [], timeLeftSeconds := gameDurationSeconds cfg,
                   totalMistakes := 0, blockMistakes := 0, totalTurns := 0,
                   blockTurnCount := 0, hasResponded := False, gameIntervalRef := False \<rparr>;
       (s2, rs') \<leftarrow> nextTurn cfg (nBack s) now rs True s1;
       Some (s2, sh', rs')
     })"

definition stopGame :: "State \<Rightarrow> State" where
  "stopGame s = s\<lparr> isPlaying := False, turnTimer := None, gameIntervalRef := False \<rparr>"

subsection \<open>Session recorder\<close>

text \<open>
  What \<open>saveHistory\<close> reads from the clock: the fields of \<open>new Date()\<close> it prints and the
  later \<open>Date.now()\<close>.
\<close>

record Clock =
  getMonth :: nat
  getDate :: nat
  getHours :: nat
  getMinutes :: nat
  dateNow :: int

fun natToString :: "nat \<Rightarrow> string" where
  "natToString n =
     (if n < 10 then [''0123456789'' ! n]
      else natToString (n div 10) @ [''0123456789'' ! (n mod 10)])"

declare natToString.simps [simp del]

definition padStart2 :: "string \<Rightarrow> string" where
  "padStart2 str = replicate (2 - length str) (CHR ''0'') @ str"

definition saveHistory :: "Clock \<Rightarrow> rat \<Rightarrow> int \<Rightarrow> int \<Rightarrow> State \<Rightarrow> State" where
  "saveHistory now accuracy levelPlayed finalScore s =
    (let shortDate = natToString (getMonth now + 1) @ ''/'' @ natToString (getDate now) @ '' ''
                     @ natToString (getHours now) @ '':''
                     @ padStart2 (natToString (getMinutes now));
         entry = \<lparr> date = shortDate, timestamp = dateNow now, score_h = finalScore,
                   accuracy_h = accuracy, maxNBack = levelPlayed \<rparr>;
         existing = (case storedHistory s of None \<Rightarrow> [] | Some h \<Rightarrow> h)
     in s\<lparr> storedHistory := Some (existing @ [entry]) \<rparr>)"

definition endGame :: "Config \<Rightarrow> Clock \<Rightarrow> bool \<Rightarrow> State \<Rightarrow> State" where
  "endGame cfg now timedOut s =
    (if timedOut \<and> \<not> gameIntervalRef s then s
     else
       (let s1 = s\<lparr> isPlaying := False, turnTimer := None, gameIntervalRef := False \<rparr>;
            accuracy = (if totalTurns s > 0
                        then accuracyPercent (totalTurns s) (totalMistakes s) else 0);
            isSuccess = (accuracy \<ge> 80);
            levelPlayed = nBack s;
            s2 = (if timedOut \<and> autoProgress cfg \<and> totalTurns s > 0 then
                    (if isSuccess then s1\<lparr> nBack := nBack s1 + 1 \<rparr>
                     else if nBack s > 1 \<and> accuracy < 50 then s1\<lparr> nBack := nBack s1 - 1 \<rparr>
                     else s1)
                  else s1)
        in if timedOut then saveHistory now accuracy levelPlayed (scoreRef s2) s2 else s2))"

text \<open>
  The effect on \<open>[timeLeftSeconds, isPlaying, useTimer]\<close>, the only caller of \<open>endGame\<close>: the
  session times out when the countdown has reached zero.
\<close>

definition timeoutEffect :: "Config \<Rightarrow> Clock \<Rightarrow> State \<Rightarrow> State" where
  "timeoutEffect cfg now s =
    (if isPlaying s \<and> useTimer cfg \<and> timeLeftSeconds s \<le> 0 then
       (if gameIntervalRef s then endGame cfg now True s else s)
     else s)"

subsection \<open>Responses\<close>

definition speedBonus :: "int \<Rightarrow> int" where
  "speedBonus reactionTime = max 0 (min 10 ((2000 - reactionTime) div 150))"

definition points :: "int \<Rightarrow> int \<Rightarrow> int" where
  "points n reactionTime = 10 + n * 5 + speedBonus reactionTime"

text \<open>
  The local \<open>correct\<close> of \<open>handleInput\<close>: whether the action agrees with the comparison of
  the transformed values of the current stimulus and the one \<open>nBack\<close> turns before. Past
  the guard of \<open>handleInput\<close> the history is longer than \<open>nBack\<close>, so both indices are below
  its length; with a negative \<open>nBack\<close> the index of the target is past the end, the array
  gives \<open>undefined\<close> and \<open>getTransformedValue\<close> throws a \<open>TypeError\<close> on reading its
  property: no verdict is reached, which is \<open>None\<close> here.
\<close>

definition responseCorrect :: "Config \<Rightarrow> State \<Rightarrow> UserAction \<Rightarrow> bool option" where
  "responseCorrect cfg s action =
    (let h = historyRef s;
         i = int (length h) - 1;
         j = int (length h) - 1 - nBack s
     in if 0 \<le> i \<and> 0 \<le> j \<and> j < int (length h) then
          (let currentStim = h ! nat i;
               targetStim = h ! nat j;
               val1 = getTransformedValue cfg (perspectiveMapping s) currentStim (currentRule s);
               val2 = getTransformedValue cfg (perspectiveMapping s) targetStim (currentRule s);
               isMatch = (val1 = val2)
           in Some (if action = match then (if isMatch then True else False)
                    else (if \<not> isMatch then True else False)))
        else None)"

text \<open>
  \<open>handleInput\<close> of the current render: \<open>cfg\<close> are its options and its level is the live
  one. \<open>now\<close> is \<open>Date.now()\<close> at the response; the reaction time counts from the
  stimulus's id. The timer it sets calls the \<open>nextTurn\<close> of this render. When the
  comparison throws, the handler ends there: the flag \<open>hasResponded\<close> is already set and
  nothing else has changed.
\<close>

definition handleInput :: "Config \<Rightarrow> int \<Rightarrow> UserAction \<Rightarrow> State \<Rightarrow> State" where
  "handleInput cfg now action s =
    (if \<not> isPlaying s \<or> int (length (historyRef s)) \<le> nBack s \<or> hasResponded s then s
     else
       (let s1 = s\<lparr> hasResponded := True \<rparr>;
            currentStim = historyRef s ! (length (historyRef s) - 1)
        in case responseCorrect cfg s action of
             None \<Rightarrow> s1
           | Some correct \<Rightarrow>
               (let s2 = (if correct then
                            (let reactionTime = now - id_st currentStim;
                                 pts = points (nBack s) reactionTime
                             in s1\<lparr> score := score s1 + pts, scoreRef := scoreRef s1 + pts \<rparr>)
                          else
                            s1\<lparr> totalMistakes := totalMistakes s1 + 1,
                                blockMistakes := blockMistakes s1 + 1,
                                score := score s1 - 5, scoreRef := scoreRef s1 - 5 \<rparr>)
                in s2\<lparr> turnTimer := Some \<lparr> delay = 500, renderConfig = cfg,
                                          renderNBack = nBack s \<rparr> \<rparr>)))"

text \<open>
  The level buttons of the display, disabled while auto-progress is on:
  \<open>setNBack(n => Math.max(1, n - 1))\<close> and \<open>setNBack(n => n + 1)\<close>. They change the live
  level and leave a pending timer as it is.
\<close>

definition nBackMinus :: "Config \<Rightarrow> State \<Rightarrow> State" where
  "nBackMinus cfg s = (if autoProgress cfg then s else s\<lparr> nBack := max 1 (nBack s - 1) \<rparr>)"

definition nBackPlus :: "Config \<Rightarrow> State \<Rightarrow> State" where
  "nBackPlus cfg s = (if autoProgress cfg then s else s\<lparr> nBack := nBack s + 1 \<rparr>)"

section \<open>Unanswered turns\<close>

text \<open>
  The player does nothing for \<open>k\<close> turns: each time the interval has passed, the pending
  timer fires.
\<close>

fun unansweredTurns :: "nat \<Rightarrow> int \<Rightarrow> Draws \<Rightarrow> State \<Rightarrow> (State \<times> Draws) option" where
  "unansweredTurns 0 now rs s = Some (s, rs)"
| "unansweredTurns (Suc k) now rs s = do {
     (s', rs') \<leftarrow> turnTimerFires (now + int INTERVAL_MS) rs s;
     unansweredTurns k (now + int INTERVAL_MS) rs' s'
   }"

text \<open>
  The live level, the length of the history, the block counters and the response flag of
  a state, and what one \<open>nextTurn\<close> of a render with auto-progress on, the timer off and
  level \<open>n\<close> does to them (\<open>nextTurn_counters\<close> below proves that it does).
\<close>

definition counters :: "State \<Rightarrow> int \<times> nat \<times> nat \<times> nat \<times> bool" where
  "counters s =
     (nBack s, length (historyRef s), blockTurnCount s, blockMistakes s, hasResponded s)"

fun turnCounters ::
    "bool \<Rightarrow> int \<Rightarrow> int \<times> nat \<times> nat \<times> nat \<times> bool \<Rightarrow> int \<times> nat \<times> nat \<times> nat \<times> bool" where
  "turnCounters isReset n (level, len, turns, mistakes, responded) =
     (let mistakes1 = (if \<not> isReset \<and> int len > n \<and> \<not> responded
                       then mistakes + 1 else mistakes)
      in if turns < BLOCK_SIZE then (level, len + 1, turns + 1, mistakes1, False)
         else (let accuracy = accuracyPercent turns mistakes1
               in ((if accuracy \<ge> 80 then level + 1
                    else if accuracy < 50 \<and> n > 1 then level - 1 else level),
                   len + 1, 1, 0, False)))"

section \<open>Settings\<close>

text \<open>
  \<open>toggleRule\<close> writes the new list to the state cell and to the item \<open>rft_fluency_3d_rules\<close>
  of \<open>localStorage\<close>; the item is the second component here.
\<close>

definition toggleRule ::
    "Config \<times> Attribute list option \<Rightarrow> Attribute \<Rightarrow> Config \<times> Attribute list option" where
  "toggleRule cs rule =
    (let cfg = fst cs in
     if perspectiveMode cfg \<and> perspectiveType cfg = spatial \<and> (rule = Shape \<or> rule = Size)
       then cs
     else
       (let newRules0 = (if rule \<in> set (activeRules cfg)
                         then filter (\<lambda>r. r \<noteq> rule) (activeRules cfg)
                         else activeRules cfg @ [rule]);
            newRules = (if length newRules0 = 0
                        then (if length (activeRules cfg) > 0 then activeRules cfg else [Color])
                        else newRules0)
        in (cfg\<lparr> activeRules := newRules \<rparr>, Some newRules)))"

text \<open>
  The options a session of the component can have. They start from the \<open>useState\<close>
  defaults; \<open>loadSettings\<close> replaces the active rules by the stored array when there is one
  and it is not empty; \<open>toggleRule\<close> is the only other writer of the active rules; the
  setters of the other options leave them alone.
\<close>

definition initialConfig :: Config where
  "initialConfig = \<lparr> activeRules = [Color], perspectiveMode = False,
     perspectiveType = symbolic, spatialType = rotation, spatialMatchMode = view,
     showStroop = True, distractorsEnabled = False, controlSwapEnabled = False,
     useTimer = True, gameDurationSeconds = 60, autoProgress = True \<rparr>"

definition loadSavedRules :: "Attribute list option \<Rightarrow> Config \<Rightarrow> Config" where
  "loadSavedRules savedRules cfg =
    (case savedRules of
       None \<Rightarrow> cfg
     | Some parsed \<Rightarrow> if length parsed > 0 then cfg\<lparr> activeRules := parsed \<rparr> else cfg)"

inductive reachableConfig :: "Config \<Rightarrow> bool" where
  initial: "reachableConfig initialConfig"
| load: "reachableConfig cfg \<Longrightarrow> reachableConfig (loadSavedRules savedRules cfg)"
| setOption: "reachableConfig cfg \<Longrightarrow> activeRules cfg' = activeRules cfg \<Longrightarrow> reachableConfig cfg'"
| toggle: "reachableConfig cfg \<Longrightarrow> reachableConfig (fst (toggleRule (cfg, stored) rule))"

section \<open>Example inputs\<close>

text \<open>A configuration, stimuli and a running session used to evaluate the functions.\<close>

definition exCfg :: Config where
  "exCfg = \<lparr> activeRules = [Color], perspectiveMode = False, perspectiveType = symbolic,
     spatialType = rotation, spatialMatchMode = view, showStroop = True,
     distractorsEnabled = False, controlSwapEnabled = False, useTimer = False,
     gameDurationSeconds = 60, autoProgress = True \<rparr>"

definition exStim ::
    "ColorType \<Rightarrow> ColorType \<Rightarrow> PositionType \<Rightarrow> ObserverPos \<Rightarrow> int \<Rightarrow> Stimulus" where
  "exStim c bc p ob t = \<lparr> color = c, backColor = bc, netColors = [red, red, c, red, red, bc],
     shape = cube, size_st = medium, position = p, id_st = t, stroopText = ''RED'',
     stroopInk = green, observerPos = ob \<rparr>"

definition exState :: State where
  "exState = \<lparr> isPlaying = True, score = 0, scoreRef = 0, timeLeftSeconds = 60, nBack = 1,
     currentRule = Color, isSwapped = False,
     historyRef = [exStim red blue center me 1000, exStim red green center me 4500],
     blockTurnCount = 2, blockMistakes = 0, totalMistakes = 0, totalTurns = 2,
     hasResponded = False, perspectiveMapping = Map.empty, lastStroopText = ''RED'',
     turnTimer = Some \<lparr> delay = 3500, renderConfig = exCfg, renderNBack = 1 \<rparr>,
     gameIntervalRef = False, storedHistory = None \<rparr>"

text \<open>
  Draws for one call of \<open>generateStimulus\<close> under \<open>exCfg\<close>: the back colour comes out equal
  to the colour first and is drawn again.
\<close>

definition exDraws :: Draws where
  "exDraws = [0, 0, 1 / 2, 0, 0, 0, 0, 0, 0, 1 / 3, 1 / 2, 9 / 10]"

definition exGenerated :: Stimulus where
  "exGenerated = \<lparr> color = red, backColor = blue, netColors = [red, red, red, red, red, blue],
     shape = cube, size_st = medium, position = center, id_st = 5, stroopText = ''BLUE'',
     stroopInk = blue, observerPos = me \<rparr>"

text \<open>
  Outcomes of the shuffles of one \<open>scramblePerspectiveRules\<close>: the first shuffle of the
  shapes leaves \<open>cube\<close> in place and is rejected.
\<close>

definition exShuffles :: Shuffles where
  "exShuffles = [[''blue'', ''green'', ''red''], [''cube'', ''tetrahedron'', ''sphere''],
     [''tetrahedron'', ''cube'', ''sphere''], [''large'', ''small'', ''medium''],
     [''center'', ''right'', ''left'']]"

definition exMapping :: PerspectiveMapping where
  "exMapping = [Color \<mapsto> buildMap (map colorName COLORS) [''blue'', ''green'', ''red''],
     Shape \<mapsto> buildMap (map shapeName SHAPES) [''tetrahedron'', ''cube'', ''sphere''],
     Size \<mapsto> buildMap (map sizeName SIZES) [''large'', ''small'', ''medium''],
     Position \<mapsto> buildMap (map positionName POSITIONS) [''center'', ''right'', ''left'']]"

text \<open>
  The example session with the timer on and the countdown at zero, after ten turns with
  one mistake, and a reading of the clock.
\<close>

definition exTimedCfg :: Config where
  "exTimedCfg = exCfg\<lparr> useTimer := True \<rparr>"

definition exTimedOut :: State where
  "exTimedOut = exState\<lparr> timeLeftSeconds := 0, gameIntervalRef := True, totalTurns := 10,
     totalMistakes := 1, score := 120, scoreRef := 120 \<rparr>"

definition exClock :: Clock where
  "exClock = \<lparr> getMonth = 10, getDate = 3, getHours = 9, getMinutes = 5,
     dateNow = 1793696700000 \<rparr>"

text \<open>Spatial perspective with each matching strategy.\<close>

definition exObjectCfg :: Config where
  "exObjectCfg = exCfg\<lparr> perspectiveMode := True, perspectiveType := spatial,
     spatialMatchMode := object \<rparr>"

definition exViewCfg :: Config where
  "exViewCfg = exCfg\<lparr> activeRules := [Position], perspectiveMode := True,
     perspectiveType := spatial, spatialMatchMode := view \<rparr>"

text \<open>
  A session that has not started, at level \<open>n\<close>; the draws of a turn under \<open>exCfg\<close> when the
  Stroop word of the turn before was not \<open>RED\<close>, and when it was (the word is then drawn
  again); the stimulus such a turn generates; the draws of a start and forty more turns;
  and \<open>exCfg\<close> with auto-progress off.
\<close>

definition exIdle :: "int \<Rightarrow> State" where
  "exIdle n = \<lparr> isPlaying = False, score = 0, scoreRef = 0, timeLeftSeconds = 60, nBack = n,
     currentRule = Color, isSwapped = False, historyRef = [],
     blockTurnCount = 0, blockMistakes = 0, totalMistakes = 0, totalTurns = 0,
     hasResponded = False, perspectiveMapping = Map.empty, lastStroopText = [],
     turnTimer = None, gameIntervalRef = False, storedHistory = None \<rparr>"

definition exFirstDraws :: Draws where
  "exFirstDraws = [0, 0, 1 / 2, 0, 0, 0, 0, 0, 0, 0, 0, 9 / 10]"

definition exSecondDraws :: Draws where
  "exSecondDraws = [0, 0, 1 / 2, 0, 0, 0, 0, 0, 0, 0, 1 / 2, 0, 9 / 10]"

definition exTurnStim :: "string \<Rightarrow> int \<Rightarrow> Stimulus" where
  "exTurnStim word t = \<lparr> color = red, backColor = blue,
     netColors = [red, red, red, red, red, blue], shape = cube, size_st = medium,
     position = center, id_st = t, stroopText = word, stroopInk = red, observerPos = me \<rparr>"

definition exIdleDraws :: Draws where
  "exIdleDraws = exFirstDraws @ concat (replicate 10 (exSecondDraws @ exFirstDraws))
                   @ concat (replicate 10 (exSecondDraws @ exFirstDraws))"

definition exManualCfg :: Config where
  "exManualCfg = exCfg\<lparr> autoProgress := False \<rparr>"

section \<open>Scoring of a correct response\<close>

lemma speedBonus_range: "0 \<le> speedBonus rt \<and> speedBonus rt \<le> 10"
  by (simp add: speedBonus_def)

lemma speedBonus_fast: "rt \<le> 500 \<Longrightarrow> speedBonus rt = 10"
  unfolding speedBonus_def by linarith

lemma speedBonus_slow: "2000 \<le> rt \<Longrightarrow> speedBonus rt = 0"
proof -
  assume "2000 \<le> rt"
  then have "(2000 - rt) div 150 \<le> 0"
    by (simp add: div_nonpos_pos_le0)
  then show ?thesis by (simp add: speedBonus_def)
qed

text \<open>
  Claim C1, as the code has it. A response that \<open>handleInput\<close> accepts and finds correct
  adds \<open>10 + 5 * nBack + bonus\<close> to the score (and to its copy \<open>scoreRef\<close>), where \<open>bonus\<close> is
  \<open>max 0 (min 10 (floor ((2000 - rt) / 150)))\<close> and \<open>rt\<close> is the time since the id of the
  current stimulus. The bonus is never negative; it is 10 at reaction time 0 and 0 from
  2000 ms on. At reaction time 0 and level 1 the response scores 25 points: base 10, 5 for
  the level, 10 for speed.
\<close>

theorem correct_response_points:
  assumes "isPlaying s" and "nBack s < int (length (historyRef s))" and "\<not> hasResponded s"
    and "responseCorrect cfg s action = Some True"
  shows "let rt = now - id_st (last (historyRef s));
             bonus = max 0 (min 10 ((2000 - rt) div 150));
             s' = handleInput cfg now action s
         in score s' = score s + (10 + 5 * nBack s + bonus)
          \<and> scoreRef s' = scoreRef s + (10 + 5 * nBack s + bonus)
          \<and> 0 \<le> bonus
          \<and> (rt = 0 \<longrightarrow> bonus = 10)
          \<and> (rt = 0 \<and> nBack s = 1 \<longrightarrow> score s' = score s + 25)
          \<and> (2000 \<le> rt \<longrightarrow> bonus = 0)"
proof -
  define rt where "rt = now - id_st (last (historyRef s))"
  have "historyRef s \<noteq> []"
    using assms(4) by (auto simp: responseCorrect_def Let_def split: if_splits)
  then have l: "historyRef s ! (length (historyRef s) - Suc 0) = last (historyRef s)"
    by (simp add: last_conv_nth)
  have sc: "score (handleInput cfg now action s) = score s + points (nBack s) rt"
    and scr: "scoreRef (handleInput cfg now action s) = scoreRef s + points (nBack s) rt"
    using assms by (simp_all add: handleInput_def Let_def rt_def l)
  have b: "max 0 (min 10 ((2000 - rt) div 150)) = speedBonus rt"
    by (simp add: speedBonus_def)
  have p: "points (nBack s) rt = 10 + 5 * nBack s + speedBonus rt"
    by (simp add: points_def)
  have f: "rt = 0 \<Longrightarrow> speedBonus rt = 10"
    by (simp add: speedBonus_fast)
  show ?thesis
    unfolding Let_def rt_def [symmetric] b
    using sc scr p f speedBonus_range [of rt] speedBonus_slow [of rt] by auto
qed

text \<open>
  The example session at level 1: a correct match at reaction time 0 scores 25, one at
  2000 ms scores 15.
\<close>

theorem correct_response_points_witness:
  "isPlaying exState \<and> nBack exState < int (length (historyRef exState))
   \<and> \<not> hasResponded exState
   \<and> responseCorrect exCfg exState match = Some True
   \<and> score (handleInput exCfg 4500 match exState) = 25
   \<and> score (handleInput exCfg 6500 match exState) = 15"
proof -
  have h: "isPlaying exState" "nBack exState < int (length (historyRef exState))"
    "\<not> hasResponded exState" "responseCorrect exCfg exState match = Some True"
    by (simp_all add: exState_def exCfg_def exStim_def responseCorrect_def
        getTransformedValue_def)
  show ?thesis
    using h correct_response_points [OF h, of 4500] correct_response_points [OF h, of 6500]
    by (simp add: Let_def exState_def exStim_def)
qed

text \<open>
  C1 as the specification words it gives 35 points to a correct response at reaction time
  0 and level 1. In the example session such a response does not change the score by 35.
\<close>

theorem points_35_counterexample:
  "responseCorrect exCfg exState match = Some True
   \<and> 4500 - id_st (last (historyRef exState)) = 0
   \<and> nBack exState = 1
   \<and> score (handleInput exCfg 4500 match exState) - score exState \<noteq> 35"
  by (simp add: handleInput_def exCfg_def exState_def exStim_def responseCorrect_def
      getTransformedValue_def points_def speedBonus_def)

section \<open>Per-block progression\<close>

text \<open>
  What \<open>checkProgression\<close> of a render with options \<open>cfg\<close> and level \<open>n\<close> does: with
  auto-progress on, the timer off and a block counter of at least \<open>BLOCK_SIZE\<close>, it raises
  the live level when the block accuracy is at least 80 percent, lowers it when the
  accuracy is under 50 percent and \<open>n\<close> is above 1, and clears the block counters;
  otherwise it changes nothing.
\<close>

lemma checkProgression_of_render:
  "(autoProgress cfg \<and> \<not> useTimer cfg \<and> BLOCK_SIZE \<le> blockTurnCount s \<longrightarrow>
      (let acc = (of_int (int (blockTurnCount s) - int (blockMistakes s))
                    / of_nat (blockTurnCount s) :: rat);
           level = (if acc * 100 \<ge> 80 then nBack s + 1
                    else if acc * 100 < 50 \<and> n > 1 then nBack s - 1
                    else nBack s)
       in checkProgression cfg n s
            = s\<lparr> nBack := level, blockTurnCount := 0, blockMistakes := 0 \<rparr>))
   \<and> (\<not> autoProgress cfg \<or> useTimer cfg \<or> blockTurnCount s < BLOCK_SIZE \<longrightarrow>
        checkProgression cfg n s = s)"
proof -
  have a: "of_int (int (blockTurnCount s) - int (blockMistakes s)) / of_nat (blockTurnCount s)
             * 100
           = accuracyPercent (blockTurnCount s) (blockMistakes s)"
    by (simp only: accuracyPercent_def)
  show ?thesis
    unfolding Let_def a
    by (simp add: checkProgression_def Let_def BLOCK_SIZE_def)
qed

lemma checkProgression_keeps:
  "score (checkProgression cfg n s) = score s"
  "scoreRef (checkProgression cfg n s) = scoreRef s"
  "totalMistakes (checkProgression cfg n s) = totalMistakes s"
  "isPlaying (checkProgression cfg n s) = isPlaying s"
  "historyRef (checkProgression cfg n s) = historyRef s"
  "lastStroopText (checkProgression cfg n s) = lastStroopText s"
  by (simp_all add: checkProgression_def Let_def)

lemma missCheck_keeps:
  "isPlaying (missCheck isReset n s) = isPlaying s"
  "historyRef (missCheck isReset n s) = historyRef s"
  "lastStroopText (missCheck isReset n s) = lastStroopText s"
  "nBack (missCheck isReset n s) = nBack s"
  by (simp_all add: missCheck_def)

text \<open>The fields of the state after a \<open>nextTurn\<close>, in terms of its first two steps.\<close>

lemma nextTurn_fields:
  assumes "nextTurn cfg n now rs isReset s = Some (s', rs')"
  shows "score s' = score (missCheck isReset n s)"
    and "scoreRef s' = scoreRef (missCheck isReset n s)"
    and "totalMistakes s' = totalMistakes (missCheck isReset n s)"
    and "blockMistakes s' = blockMistakes (checkProgression cfg n (missCheck isReset n s))"
    and "blockTurnCount s' = blockTurnCount (checkProgression cfg n (missCheck isReset n s)) + 1"
    and "nBack s' = nBack (checkProgression cfg n (missCheck isReset n s))"
    and "length (historyRef s') = length (historyRef s) + 1"
    and "isPlaying s' = isPlaying s"
    and "\<not> hasResponded s'"
    and "turnTimer s' = Some \<lparr> delay = INTERVAL_MS, renderConfig = cfg, renderNBack = n \<rparr>"
proof -
  define s2 where "s2 = checkProgression cfg n (missCheck isReset n s)"
  from assms obtain swap newRule lastText stim where
    "s' = (let s3 = s2\<lparr> isSwapped := swap, currentRule := newRule, lastStroopText := lastText,
                 historyRef := historyRef s2 @ [stim] \<rparr>;
              s4 = (if useTimer cfg \<and> \<not> gameIntervalRef s3 \<and> int (length (historyRef s3)) > n
               then startTimer s3 else s3)
          in s4\<lparr> totalTurns := totalTurns s4 + 1, blockTurnCount := blockTurnCount s4 + 1,
               hasResponded := False,
               turnTimer := Some \<lparr> delay = INTERVAL_MS, renderConfig = cfg,
                                   renderNBack = n \<rparr> \<rparr>)"
    unfolding nextTurn_def s2_def Let_def
    by (auto simp: bind_eq_Some_conv)
  then have "score s' = score s2" "scoreRef s' = scoreRef s2"
    "totalMistakes s' = totalMistakes s2" "blockMistakes s' = blockMistakes s2"
    "blockTurnCount s' = blockTurnCount s2 + 1" "nBack s' = nBack s2"
    "length (historyRef s') = length (historyRef s2) + 1" "isPlaying s' = isPlaying s2"
    "\<not> hasResponded s'"
    "turnTimer s' = Some \<lparr> delay = INTERVAL_MS, renderConfig = cfg, renderNBack = n \<rparr>"
    by (simp_all add: Let_def startTimer_def)
  then show "score s' = score (missCheck isReset n s)"
    and "scoreRef s' = scoreRef (missCheck isReset n s)"
    and "totalMistakes s' = totalMistakes (missCheck isReset n s)"
    and "blockMistakes s' = blockMistakes (checkProgression cfg n (missCheck isReset n s))"
    and "blockTurnCount s' = blockTurnCount (checkProgression cfg n (missCheck isReset n s)) + 1"
    and "nBack s' = nBack (checkProgression cfg n (missCheck isReset n s))"
    and "length (historyRef s') = length (historyRef s) + 1"
    and "isPlaying s' = isPlaying s"
    and "\<not> hasResponded s'"
    and "turnTimer s' = Some \<lparr> delay = INTERVAL_MS, renderConfig = cfg, renderNBack = n \<rparr>"
    by (simp_all add: s2_def checkProgression_keeps missCheck_keeps)
qed

lemma nextTurn_counters:
  assumes "autoProgress cfg" and "\<not> useTimer cfg"
    and "nextTurn cfg n now rs isReset s = Some (s', rs')"
  shows "counters s' = turnCounters isReset n (counters s)"
proof -
  note f = nextTurn_fields [OF assms(3)]
  have "(nBack (checkProgression cfg n (missCheck isReset n s)),
         length (historyRef s) + 1,
         blockTurnCount (checkProgression cfg n (missCheck isReset n s)) + 1,
         blockMistakes (checkProgression cfg n (missCheck isReset n s)), False)
      = turnCounters isReset n (counters s)"
    using assms(1,2)
    by (simp add: counters_def checkProgression_def missCheck_def isMiss_def Let_def)
  then show ?thesis using f by (simp add: counters_def)
qed

lemma unansweredTurns_counters:
  assumes "autoProgress cfg" and "\<not> useTimer cfg"
  shows "turnTimer s = Some \<lparr> delay = d, renderConfig = cfg, renderNBack = n \<rparr>
    \<Longrightarrow> unansweredTurns k now rs s = Some (s', rs')
    \<Longrightarrow> counters s' = (turnCounters False n ^^ k) (counters s)"
proof (induction k arbitrary: s now rs d)
  case 0
  then show ?case by auto
next
  case (Suc k)
  from Suc.prems obtain s1 rs1 where
    f: "nextTurn cfg n (now + int INTERVAL_MS) rs False s = Some (s1, rs1)"
    and r: "unansweredTurns k (now + int INTERVAL_MS) rs1 s1 = Some (s', rs')"
    by (auto simp: bind_eq_Some_conv turnTimerFires_def)
  from Suc.IH [OF nextTurn_fields(10) [OF f] r] nextTurn_counters [OF assms f] show ?case
    by (simp add: funpow_swap1)
qed


text \<open>Turns under a configuration like \<open>exCfg\<close> return on the example draws.\<close>

lemma draw_values:
  "randomElement COLORS (0 # rs) = Some (red, rs)"
  "randomElement COLORS (1 / 2 # rs) = Some (blue, rs)"
  "randomElement STROOP_WORDS (0 # rs) = Some (''RED'', rs)"
  "randomElement STROOP_WORDS (1 / 2 # rs) = Some (''BLUE'', rs)"
  "randomElement [Color] (0 # rs) = Some (Color, rs)"
  by code_simp+

lemma randomElements_six:
  "randomElements COLORS 6 (0 # 0 # 0 # 0 # 0 # 0 # rs)
     = Some ([red, red, red, red, red, red], rs)"
  by (simp add: eval_nat_numeral draw_values)

lemma generateStimulus_first:
  assumes "activeRules cfg = [Color]" and "\<not> distractorsEnabled cfg"
    and "\<not> perspectiveMode cfg" and "lastText \<noteq> ''RED''"
  shows "generateStimulus cfg lastText now
       (0 # 1 / 2 # 0 # 0 # 0 # 0 # 0 # 0 # 0 # 0 # 9 / 10 # rs)
     = Some (exTurnStim ''RED'' now, ''RED'', rs)"
  using assms
  by (simp add: generateStimulus_def draw_values randomElements_six exTurnStim_def)

lemma generateStimulus_second:
  assumes "activeRules cfg = [Color]" and "\<not> distractorsEnabled cfg"
    and "\<not> perspectiveMode cfg"
  shows "generateStimulus cfg ''RED'' now
       (0 # 1 / 2 # 0 # 0 # 0 # 0 # 0 # 0 # 0 # 1 / 2 # 0 # 9 / 10 # rs)
     = Some (exTurnStim ''BLUE'' now, ''BLUE'', rs)"
  using assms
  by (simp add: generateStimulus_def draw_values randomElements_six exTurnStim_def)

lemma nextTurn_first_returns:
  assumes "activeRules cfg = [Color]" and "\<not> distractorsEnabled cfg"
    and "\<not> perspectiveMode cfg" and "\<not> controlSwapEnabled cfg"
    and "lastStroopText s \<noteq> ''RED''"
  shows "\<exists>s'. nextTurn cfg n now (exFirstDraws @ rs) isReset s = Some (s', rs)
             \<and> lastStroopText s' = ''RED''"
proof -
  define s2 where "s2 = checkProgression cfg n (missCheck isReset n s)"
  have k: "lastStroopText s2 = lastStroopText s"
    by (simp add: s2_def checkProgression_keeps missCheck_keeps)
  show ?thesis
    unfolding nextTurn_def Let_def s2_def [symmetric] exFirstDraws_def
    using assms by (simp add: k draw_values generateStimulus_first startTimer_def)
qed

lemma nextTurn_second_returns:
  assumes "activeRules cfg = [Color]" and "\<not> distractorsEnabled cfg"
    and "\<not> perspectiveMode cfg" and "\<not> controlSwapEnabled cfg"
    and "lastStroopText s = ''RED''"
  shows "\<exists>s'. nextTurn cfg n now (exSecondDraws @ rs) isReset s = Some (s', rs)
             \<and> lastStroopText s' = ''BLUE''"
proof -
  define s2 where "s2 = checkProgression cfg n (missCheck isReset n s)"
  have k: "lastStroopText s2 = lastStroopText s"
    by (simp add: s2_def checkProgression_keeps missCheck_keeps)
  show ?thesis
    unfolding nextTurn_def Let_def s2_def [symmetric] exSecondDraws_def
    using assms by (simp add: k draw_values generateStimulus_second startTimer_def)
qed

lemma unansweredTurns_return:
  assumes c: "activeRules cfg = [Color]" "\<not> distractorsEnabled cfg" "\<not> perspectiveMode cfg"
    "\<not> controlSwapEnabled cfg"
  shows "turnTimer s = Some \<lparr> delay = d, renderConfig = cfg, renderNBack = n \<rparr>
    \<Longrightarrow> lastStroopText s = ''RED''
    \<Longrightarrow> \<exists>s'. unansweredTurns (2 * j) now
               (concat (replicate j (exSecondDraws @ exFirstDraws)) @ rs) s = Some (s', rs)
             \<and> lastStroopText s' = ''RED''
             \<and> (\<exists>d'. turnTimer s'
                        = Some \<lparr> delay = d', renderConfig = cfg, renderNBack = n \<rparr>)"
proof (induction j arbitrary: s now d)
  case 0
  then show ?case by auto
next
  case (Suc j)
  let ?rest = "concat (replicate j (exSecondDraws @ exFirstDraws)) @ rs"
  let ?t1 = "now + int INTERVAL_MS"
  let ?t2 = "?t1 + int INTERVAL_MS"
  from nextTurn_second_returns [OF c Suc.prems(2)] obtain s1 where
    1: "nextTurn cfg n ?t1 (exSecondDraws @ exFirstDraws @ ?rest) False s
          = Some (s1, exFirstDraws @ ?rest)"
    and l1: "lastStroopText s1 = ''BLUE''"
    by blast
  note t1 = nextTurn_fields(10) [OF 1]
  from l1 have "lastStroopText s1 \<noteq> ''RED''" by simp
  from nextTurn_first_returns [OF c this] obtain s2 where
    2: "nextTurn cfg n ?t2 (exFirstDraws @ ?rest) False s1 = Some (s2, ?rest)"
    and l2: "lastStroopText s2 = ''RED''"
    by blast
  note t2 = nextTurn_fields(10) [OF 2]
  from Suc.IH [OF t2 l2, of ?t2] obtain s' where
    r: "unansweredTurns (2 * j) ?t2 ?rest s2 = Some (s', rs)"
    and e: "lastStroopText s' = ''RED''"
      "\<exists>d'. turnTimer s' = Some \<lparr> delay = d', renderConfig = cfg, renderNBack = n \<rparr>"
    by blast
  have "unansweredTurns (2 * Suc j) now
      (concat (replicate (Suc j) (exSecondDraws @ exFirstDraws)) @ rs) s = Some (s', rs)"
    using Suc.prems(1) 1 t1 2 r by (simp add: turnTimerFires_def)
  with e show ?case by blast
qed

lemma startGame_exIdle:
  assumes c: "activeRules cfg = [Color]" "\<not> distractorsEnabled cfg" "\<not> perspectiveMode cfg"
    "\<not> controlSwapEnabled cfg"
  shows "\<exists>s1. startGame cfg now sh (exFirstDraws @ rs) (exIdle n) = Some (s1, sh, rs)
      \<and> isPlaying s1 \<and> score s1 = 0 \<and> totalMistakes s1 = 0 \<and> blockMistakes s1 = 0
      \<and> nBack s1 = n \<and> length (historyRef s1) = 1 \<and> \<not> hasResponded s1
      \<and> lastStroopText s1 = ''RED''
      \<and> blockTurnCount s1 = 1
      \<and> turnTimer s1 = Some \<lparr> delay = INTERVAL_MS, renderConfig = cfg, renderNBack = n \<rparr>"
proof -
  define s0 where "s0 = (exIdle n)\<lparr> perspectiveMapping := perspectiveMapping (exIdle n),
      isPlaying := True, score := 0, scoreRef := 0, historyRef := [],
      timeLeftSeconds := gameDurationSeconds cfg, totalMistakes := 0, blockMistakes := 0,
      totalTurns := 0, blockTurnCount := 0, hasResponded := False,
      gameIntervalRef := False \<rparr>"
  have l: "lastStroopText s0 \<noteq> ''RED''" by (simp add: s0_def exIdle_def)
  from nextTurn_first_returns [OF c l] obtain s1 where
    1: "nextTurn cfg n now (exFirstDraws @ rs) True s0 = Some (s1, rs)"
    and l1: "lastStroopText s1 = ''RED''"
    by blast
  have m: "missCheck True n s0 = s0" by (simp add: missCheck_def isMiss_def)
  have p: "checkProgression cfg n s0 = s0"
    by (simp add: checkProgression_def s0_def BLOCK_SIZE_def)
  note f = nextTurn_fields [OF 1, unfolded m p]
  have v: "score s0 = 0" "totalMistakes s0 = 0" "blockMistakes s0 = 0" "nBack s0 = n"
    "historyRef s0 = []" "isPlaying s0" "blockTurnCount s0 = 0"
    by (simp_all add: s0_def exIdle_def)
  have "startGame cfg now sh (exFirstDraws @ rs) (exIdle n) = Some (s1, sh, rs)"
    using c(1,3) 1 by (simp add: startGame_def s0_def exIdle_def)
  then show ?thesis using f v l1 by simp
qed

lemma idle_counters:
  "(turnCounters False 2 ^^ 20) (2, 1, 1, 0, False) = (1, 21, 1, 0, False)"
  "(turnCounters False 2 ^^ 20) (1, 21, 1, 0, False) = (0, 41, 1, 0, False)"
  by code_simp+

text \<open>
  Claim C2 fails on the code. With auto-progress on and the timer off, a session is
  started at level 2 and the player gives no response. Every turn after the first is run
  by the timer, which calls the \<open>nextTurn\<close> of the render that started the session, with
  level 2. At turn 21 the block of 20 has 10 percent accuracy and the live level goes from
  2 to 1. At turn 41 the next block has 0 percent accuracy; the live level is 1, not above
  1, but the test reads the level 2 of the render and the live level goes to 0.
\<close>

theorem stale_render_lowers_level:
  "autoProgress exCfg \<and> \<not> useTimer exCfg
   \<and> (\<exists>s1 sh rs1 s21 rs21 s41 rs41.
         startGame exCfg 0 [] exIdleDraws (exIdle 2) = Some (s1, sh, rs1)
       \<and> nBack s1 = 2
       \<and> unansweredTurns 20 0 rs1 s1 = Some (s21, rs21)
       \<and> nBack s21 = 1 \<and> blockTurnCount s21 = 1
       \<and> map_option renderNBack (turnTimer s21) = Some 2
       \<and> unansweredTurns 20 70000 rs21 s21 = Some (s41, rs41)
       \<and> nBack s41 = 0 \<and> blockTurnCount s41 = 1)"
proof -
  have c: "activeRules exCfg = [Color]" "\<not> distractorsEnabled exCfg"
    "\<not> perspectiveMode exCfg" "\<not> controlSwapEnabled exCfg"
    and a: "autoProgress exCfg" "\<not> useTimer exCfg"
    by (simp_all add: exCfg_def)
  let ?block = "concat (replicate 10 (exSecondDraws @ exFirstDraws))"
  from startGame_exIdle [OF c, of 0 "[]" "?block @ ?block" 2] obtain s1 where
    1: "startGame exCfg 0 [] exIdleDraws (exIdle 2) = Some (s1, [], ?block @ ?block)"
    and f1: "nBack s1 = 2" "length (historyRef s1) = 1" "\<not> hasResponded s1"
      "lastStroopText s1 = ''RED''" "blockTurnCount s1 = 1" "blockMistakes s1 = 0"
      "turnTimer s1 = Some \<lparr> delay = INTERVAL_MS, renderConfig = exCfg, renderNBack = 2 \<rparr>"
    by (auto simp: exIdleDraws_def)
  from unansweredTurns_return [OF c f1(7) f1(4), of 10 0 ?block] obtain s21 d where
    2: "unansweredTurns 20 0 (?block @ ?block) s1 = Some (s21, ?block)"
    and f2: "lastStroopText s21 = ''RED''"
      "turnTimer s21 = Some \<lparr> delay = d, renderConfig = exCfg, renderNBack = 2 \<rparr>"
    by auto
  have c1: "counters s1 = (2, 1, 1, 0, False)"
    using f1 by (simp add: counters_def)
  have c2: "counters s21 = (1, 21, 1, 0, False)"
    using unansweredTurns_counters [OF a f1(7) 2] c1 idle_counters(1) by simp
  from unansweredTurns_return [OF c f2(2) f2(1), of 10 70000 "[]"] obtain s41 where
    3: "unansweredTurns 20 70000 ?block s21 = Some (s41, [])"
    by auto
  have c3: "counters s41 = (0, 41, 1, 0, False)"
    using unansweredTurns_counters [OF a f2(2) 3] c2 idle_counters(2) by simp
  from c2 c3 have "nBack s21 = 1" "blockTurnCount s21 = 1" "nBack s41 = 0"
    "blockTurnCount s41 = 1"
    by (simp_all add: counters_def)
  moreover from f2(2) have "map_option renderNBack (turnTimer s21) = Some 2"
    by simp
  ultimately show ?thesis using a 1 f1(1) 2 3 by blast
qed


section \<open>Generated stimuli\<close>

lemma redrawBackColor_differs:
  "redrawBackColor c bc rs = Some (bc', rs') \<Longrightarrow> bc' \<noteq> c"
  by (induction rs arbitrary: bc) (auto split: if_splits option.splits)

lemma randomElements_length:
  "randomElements xs n rs = Some (ys, rs') \<Longrightarrow> length ys = n"
  by (induction n arbitrary: rs ys) (auto simp: bind_eq_Some_conv)

text \<open>
  The redraw loop ends: with draws from \<open>[0, 1)\<close>, it returns as soon as a draw gives a
  colour other than \<open>color\<close>.
\<close>

lemma randomElement_COLORS:
  assumes "0 \<le> r" and "r < 1"
  shows "randomElement COLORS (r # rs) = Some (COLORS ! nat \<lfloor>r * 3\<rfloor>, rs)"
proof -
  have "\<lfloor>r * 3\<rfloor> < 3" using assms(2) by (simp add: floor_less_iff)
  then have i: "nat \<lfloor>r * 3\<rfloor> < Suc (Suc (Suc 0))" by arith
  show ?thesis using assms by (simp add: randomElement_def COLORS_def Let_def i)
qed

lemma redrawBackColor_exit: "bc \<noteq> c \<Longrightarrow> redrawBackColor c bc rs = Some (bc, rs)"
  by (cases rs) simp_all

lemma redrawBackColor_ends:
  assumes "\<forall>r\<in>set rs. 0 \<le> r \<and> r < 1" and "\<exists>r\<in>set rs. COLORS ! nat \<lfloor>r * 3\<rfloor> \<noteq> c"
  shows "\<exists>bc' rs'. redrawBackColor c bc rs = Some (bc', rs')"
  using assms
proof (induction rs arbitrary: bc)
  case Nil
  then show ?case by simp
next
  case (Cons r rs)
  show ?case
  proof (cases "bc = c")
    case False
    then show ?thesis by (simp add: redrawBackColor_exit)
  next
    case True
    have r: "randomElement COLORS (r # rs) = Some (COLORS ! nat \<lfloor>r * 3\<rfloor>, rs)"
      using Cons.prems(1) by (simp add: randomElement_COLORS)
    show ?thesis
    proof (cases "COLORS ! nat \<lfloor>r * 3\<rfloor> = c")
      case False
      then show ?thesis using True r by (simp add: redrawBackColor_exit)
    next
      case same: True
      with Cons.prems have "\<forall>r\<in>set rs. 0 \<le> r \<and> r < 1"
        and "\<exists>r\<in>set rs. COLORS ! nat \<lfloor>r * 3\<rfloor> \<noteq> c"
        by auto
      then have "\<exists>bc' rs'. redrawBackColor c (COLORS ! nat \<lfloor>r * 3\<rfloor>) rs = Some (bc', rs')"
        by (rule Cons.IH)
      then show ?thesis using True r by simp
    qed
  qed
qed

lemma generateStimulus_exDraws:
  "generateStimulus exCfg ''RED'' 5 exDraws = Some (exGenerated, ''BLUE'', [])"
  by code_simp

text \<open>
  Claim C3. Every stimulus \<open>generateStimulus\<close> returns has a back colour different from
  its colour, and a net of six colours whose entry 2 is the colour and whose entry 5 is the
  back colour.
\<close>

theorem generateStimulus_colors:
  assumes "generateStimulus cfg lastText now rs = Some (stim, lastText', rs')"
  shows "backColor stim \<noteq> color stim
       \<and> length (netColors stim) = 6
       \<and> netColors stim ! 2 = color stim
       \<and> netColors stim ! 5 = backColor stim"
proof -
  from assms obtain c bc0 bc net0 r2 r3 r4 where
    bc: "redrawBackColor c bc0 r2 = Some (bc, r3)"
    and net: "randomElements COLORS 6 r3 = Some (net0, r4)"
    and st: "color stim = c" "backColor stim = bc" "netColors stim = net0[2 := c, 5 := bc]"
    unfolding generateStimulus_def
    by (auto simp: bind_eq_Some_conv Let_def)
  have "bc \<noteq> c" using bc by (rule redrawBackColor_differs)
  moreover have "length net0 = 6" using net by (rule randomElements_length)
  ultimately show ?thesis using st by simp
qed

theorem generateStimulus_colors_witness:
  "generateStimulus exCfg ''RED'' 5 exDraws = Some (exGenerated, ''BLUE'', [])
   \<and> backColor exGenerated \<noteq> color exGenerated
   \<and> length (netColors exGenerated) = 6
   \<and> netColors exGenerated ! 2 = color exGenerated
   \<and> netColors exGenerated ! 5 = backColor exGenerated"
  using generateStimulus_colors [OF generateStimulus_exDraws] generateStimulus_exDraws
  by simp

section \<open>Relabeling tables are derangements\<close>

lemma fold_index_update:
  assumes "distinct ks" and "n \<le> length ks" and "j < length ks"
  shows "fold (\<lambda>i m. m(ks ! i \<mapsto> vs ! i)) [0..<n] m0 (ks ! j)
         = (if j < n then Some (vs ! j) else m0 (ks ! j))"
  using assms(2)
proof (induction n)
  case 0
  then show ?case by simp
next
  case (Suc n)
  have "ks ! j = ks ! n \<longleftrightarrow> j = n"
    using assms(1,3) Suc.prems by (simp add: nth_eq_iff_index_eq)
  with Suc show ?case by auto
qed

lemma buildMap_nth:
  "distinct values \<Longrightarrow> j < length values \<Longrightarrow> buildMap values shuffled (values ! j) = Some (shuffled ! j)"
  by (simp add: buildMap_def fold_index_update)

lemma generateCyclicMapping_candidate:
  "generateCyclicMapping values sh = Some (m, sh') \<Longrightarrow>
   \<exists>shuffled. mset shuffled = mset values \<and> \<not> hasFixedPoint values shuffled
       \<and> m = buildMap values shuffled"
  by (induction sh) (auto split: if_splits)

lemma generateCyclicMapping_derangement:
  assumes g: "generateCyclicMapping values sh = Some (m, sh')" and d: "distinct values"
  shows "(\<forall>v\<in>set values. \<exists>w\<in>set values. m v = Some w \<and> w \<noteq> v)
       \<and> inj_on m (set values)
       \<and> bij_betw (\<lambda>v. the (m v)) (set values) (set values)"
proof -
  from generateCyclicMapping_candidate [OF g] obtain shuffled where
    p: "mset shuffled = mset values" and nf: "\<not> hasFixedPoint values shuffled"
    and m: "m = buildMap values shuffled"
    by blast
  have len: "length shuffled = length values" using p by (rule mset_eq_length)
  have ds: "distinct shuffled" using mset_eq_imp_distinct_iff [OF p] d by blast
  have st: "set shuffled = set values" using p by (rule mset_eq_setD)
  have at: "m (values ! i) = Some (shuffled ! i)" if "i < length values" for i
    using that d by (simp add: m buildMap_nth)
  have nfp: "values ! i \<noteq> shuffled ! i" if "i < length values" for i
    using nf that by (auto simp: hasFixedPoint_def list_ex_iff)
  have 1: "\<forall>v\<in>set values. \<exists>w\<in>set values. m v = Some w \<and> w \<noteq> v"
  proof
    fix v assume "v \<in> set values"
    then obtain i where i: "i < length values" "values ! i = v"
      by (auto simp: in_set_conv_nth)
    have "shuffled ! i \<in> set values" using i(1) len st by (metis nth_mem)
    then show "\<exists>w\<in>set values. m v = Some w \<and> w \<noteq> v"
      using at [OF i(1)] nfp [OF i(1)] i(2) by auto
  qed
  have 2: "inj_on m (set values)"
  proof (rule inj_onI)
    fix x y assume "x \<in> set values" "y \<in> set values" and e: "m x = m y"
    then obtain i j where i: "i < length values" "values ! i = x"
      and j: "j < length values" "values ! j = y"
      by (auto simp: in_set_conv_nth)
    have "shuffled ! i = shuffled ! j" using at [OF i(1)] at [OF j(1)] e i(2) j(2) by simp
    then have "i = j" using ds i(1) j(1) len by (simp add: nth_eq_iff_index_eq)
    then show "x = y" using i(2) j(2) by simp
  qed
  have inj: "inj_on (\<lambda>v. the (m v)) (set values)"
  proof (rule inj_onI)
    fix x y assume x: "x \<in> set values" and y: "y \<in> set values" and e: "the (m x) = the (m y)"
    from 1 x y obtain a b where "m x = Some a" "m y = Some b" by blast
    with e have "m x = m y" by simp
    with 2 x y show "x = y" by (simp add: inj_on_def)
  qed
  have "(\<lambda>v. the (m v)) ` set values \<subseteq> set values"
    using 1 by force
  then have "(\<lambda>v. the (m v)) ` set values = set values"
    using inj by (simp add: endo_inj_surj)
  with inj have 3: "bij_betw (\<lambda>v. the (m v)) (set values) (set values)"
    by (simp add: bij_betw_def)
  show ?thesis using 1 2 3 by blast
qed

lemma distinct_attributeValues: "distinct (attributeValues rule)"
  by (cases rule) (simp_all add: attributeValues_def COLORS_def SHAPES_def SIZES_def POSITIONS_def)


lemma scramble_tables:
  assumes "scramblePerspectiveRules sh = Some (pm, sh')"
  shows "\<exists>m s0 s1. pm rule = Some m \<and> generateCyclicMapping (attributeValues rule) s0 = Some (m, s1)"
proof -
  from assms obtain mc ms mz mp s1 s2 s3 where
    c: "generateCyclicMapping (map colorName COLORS) sh = Some (mc, s1)"
    and s: "generateCyclicMapping (map shapeName SHAPES) s1 = Some (ms, s2)"
    and z: "generateCyclicMapping (map sizeName SIZES) s2 = Some (mz, s3)"
    and p: "generateCyclicMapping (map positionName POSITIONS) s3 = Some (mp, sh')"
    and pm: "pm = [Color \<mapsto> mc, Shape \<mapsto> ms, Size \<mapsto> mz, Position \<mapsto> mp]"
    unfolding scramblePerspectiveRules_def
    by (auto simp: bind_eq_Some_conv)
  show ?thesis
  proof (cases rule)
    case Color
    then show ?thesis using c pm by (auto simp: attributeValues_def)
  next
    case Shape
    then show ?thesis using s pm by (auto simp: attributeValues_def)
  next
    case Size
    then show ?thesis using z pm by (auto simp: attributeValues_def)
  next
    case Position
    then show ?thesis using p pm by (auto simp: attributeValues_def)
  qed
qed

text \<open>
  The shuffle loop ends at the first shuffle that leaves no element in place.
\<close>

lemma generateCyclicMapping_ends:
  assumes "\<forall>p\<in>set sh. mset p = mset values" and "\<exists>p\<in>set sh. \<not> hasFixedPoint values p"
  shows "\<exists>m rest. generateCyclicMapping values sh = Some (m, rest)"
  using assms by (induction sh) auto

lemma scramble_exShuffles: "scramblePerspectiveRules exShuffles = Some (exMapping, [])"
  by (simp add: scramblePerspectiveRules_def exShuffles_def exMapping_def hasFixedPoint_def
      COLORS_def SHAPES_def SIZES_def POSITIONS_def)

lemma exMapping_Color:
  "exMapping Color = Some [''red'' \<mapsto> ''blue'', ''blue'' \<mapsto> ''green'', ''green'' \<mapsto> ''red'']"
  by (simp add: exMapping_def buildMap_def COLORS_def)

text \<open>
  Claim C4. \<open>scramblePerspectiveRules\<close>, which \<open>startGame\<close> runs at the start of a session,
  leaves a table for each of the four attributes. Each table sends every value of the
  attribute's enumeration to a value of the enumeration other than itself, is injective on
  the enumeration, and so is a bijection of the enumeration onto itself.
\<close>

theorem scramblePerspectiveRules_derangements:
  assumes "scramblePerspectiveRules sh = Some (pm, sh')"
  shows "\<forall>rule. \<exists>m. pm rule = Some m
           \<and> (\<forall>v\<in>set (attributeValues rule). \<exists>w\<in>set (attributeValues rule). m v = Some w \<and> w \<noteq> v)
           \<and> inj_on m (set (attributeValues rule))
           \<and> bij_betw (\<lambda>v. the (m v)) (set (attributeValues rule)) (set (attributeValues rule))"
proof
  fix rule
  from scramble_tables [OF assms, of rule] obtain m s0 s1 where
    m: "pm rule = Some m" and g: "generateCyclicMapping (attributeValues rule) s0 = Some (m, s1)"
    by blast
  show "\<exists>m. pm rule = Some m
           \<and> (\<forall>v\<in>set (attributeValues rule). \<exists>w\<in>set (attributeValues rule). m v = Some w \<and> w \<noteq> v)
           \<and> inj_on m (set (attributeValues rule))
           \<and> bij_betw (\<lambda>v. the (m v)) (set (attributeValues rule)) (set (attributeValues rule))"
    using m generateCyclicMapping_derangement [OF g distinct_attributeValues] by blast
qed


theorem scramblePerspectiveRules_derangements_witness:
  "scramblePerspectiveRules exShuffles = Some (exMapping, [])
   \<and> (\<exists>m. exMapping Color = Some m
          \<and> m ''red'' = Some ''blue'' \<and> m ''blue'' = Some ''green'' \<and> m ''green'' = Some ''red''
          \<and> inj_on m (set (attributeValues Color))
          \<and> bij_betw (\<lambda>v. the (m v)) (set (attributeValues Color))
               (set (attributeValues Color)))"
proof -
  from scramblePerspectiveRules_derangements [OF scramble_exShuffles]
  obtain m where m: "exMapping Color = Some m" "inj_on m (set (attributeValues Color))"
    "bij_betw (\<lambda>v. the (m v)) (set (attributeValues Color)) (set (attributeValues Color))"
    by blast
  have "m = [''red'' \<mapsto> ''blue'', ''blue'' \<mapsto> ''green'', ''green'' \<mapsto> ''red'']"
    using m(1) exMapping_Color by simp
  then have "m ''red'' = Some ''blue''" "m ''blue'' = Some ''green''" "m ''green'' = Some ''red''"
    by simp_all
  then show ?thesis using scramble_exShuffles m by blast
qed

section \<open>What reaches the stored history\<close>

lemma timeout_exTimedOut:
  "storedHistory (timeoutEffect exTimedCfg exClock exTimedOut)
     = Some [\<lparr> date = ''11/3 9:05'', timestamp = 1793696700000, score_h = 120,
               accuracy_h = 90, maxNBack = 1 \<rparr>]"
  "nBack (timeoutEffect exTimedCfg exClock exTimedOut) = 2"
  by code_simp+

lemma timeoutEffect_stops:
  "isPlaying s \<and> useTimer cfg \<and> timeLeftSeconds s \<le> 0 \<and> gameIntervalRef s
     \<Longrightarrow> \<not> isPlaying (timeoutEffect cfg now s)"
  by (simp add: timeoutEffect_def endGame_def saveHistory_def Let_def)

text \<open>
  Claim C5. \<open>stopGame\<close> leaves the stored history as it is (and so does \<open>endGame\<close> when it
  is not called for a timeout). When the session times out, that is, the effect finds the
  session playing with the timer on, the countdown at zero or below and the interval set,
  the stored history afterwards is the one before with exactly one record appended, and
  the \<open>maxNBack\<close> of that record is the level of the state the timeout found, whatever
  \<open>endGame\<close> then does to the level; the session is then no longer playing, so the effect
  run again adds nothing. This holds for any number of turns, so in particular when at
  least one trial occurred.
\<close>

theorem stop_and_timeout_history:
  "storedHistory (stopGame s) = storedHistory s
   \<and> storedHistory (endGame cfg now False s) = storedHistory s
   \<and> (isPlaying s \<and> useTimer cfg \<and> timeLeftSeconds s \<le> 0 \<and> gameIntervalRef s \<longrightarrow>
       (\<exists>entry. storedHistory (timeoutEffect cfg now s)
                  = Some ((case storedHistory s of None \<Rightarrow> [] | Some h \<Rightarrow> h) @ [entry])
              \<and> maxNBack entry = nBack s)
       \<and> timeoutEffect cfg' now' (timeoutEffect cfg now s) = timeoutEffect cfg now s)"
proof -
  have a: "storedHistory (stopGame s) = storedHistory s"
    by (simp add: stopGame_def)
  have b: "storedHistory (endGame cfg now False s) = storedHistory s"
    by (simp add: endGame_def Let_def)
  have c: "\<exists>entry. storedHistory (timeoutEffect cfg now s)
                  = Some ((case storedHistory s of None \<Rightarrow> [] | Some h \<Rightarrow> h) @ [entry])
              \<and> maxNBack entry = nBack s"
    and d: "timeoutEffect cfg' now' (timeoutEffect cfg now s) = timeoutEffect cfg now s"
    if h: "isPlaying s \<and> useTimer cfg \<and> timeLeftSeconds s \<le> 0 \<and> gameIntervalRef s"
  proof -
    show "\<exists>entry. storedHistory (timeoutEffect cfg now s)
                  = Some ((case storedHistory s of None \<Rightarrow> [] | Some h \<Rightarrow> h) @ [entry])
              \<and> maxNBack entry = nBack s"
      using h by (simp add: timeoutEffect_def endGame_def saveHistory_def Let_def)
    have "\<not> isPlaying (timeoutEffect cfg now s)"
      using h by (rule timeoutEffect_stops)
    then show "timeoutEffect cfg' now' (timeoutEffect cfg now s) = timeoutEffect cfg now s"
      by (simp add: timeoutEffect_def [of cfg' now'])
  qed
  show ?thesis using a b c d by blast
qed

text \<open>
  A timed session at level 1 with 90 percent accuracy: the timeout stores one record with
  level 1, and the live level goes up to 2.
\<close>

theorem stop_and_timeout_history_witness:
  "isPlaying exTimedOut \<and> useTimer exTimedCfg \<and> timeLeftSeconds exTimedOut \<le> 0
   \<and> gameIntervalRef exTimedOut \<and> 0 < totalTurns exTimedOut
   \<and> storedHistory exTimedOut = None \<and> nBack exTimedOut = 1
   \<and> (\<exists>entry. storedHistory (timeoutEffect exTimedCfg exClock exTimedOut) = Some [entry]
          \<and> maxNBack entry = 1)
   \<and> nBack (timeoutEffect exTimedCfg exClock exTimedOut) = 2
   \<and> storedHistory (stopGame exTimedOut) = None"
proof -
  have h: "isPlaying exTimedOut \<and> useTimer exTimedCfg \<and> timeLeftSeconds exTimedOut \<le> 0
      \<and> gameIntervalRef exTimedOut"
    and t: "0 < totalTurns exTimedOut"
    and n: "storedHistory exTimedOut = None" "nBack exTimedOut = 1"
    by (simp_all add: exTimedOut_def exTimedCfg_def exState_def exCfg_def)
  from stop_and_timeout_history [of exTimedOut exTimedCfg exClock] h n
  have "\<exists>entry. storedHistory (timeoutEffect exTimedCfg exClock exTimedOut) = Some [entry]
          \<and> maxNBack entry = 1"
    and "storedHistory (stopGame exTimedOut) = None"
    by simp_all
  then show ?thesis using h t n timeout_exTimedOut(2) by blast
qed

section \<open>Responses that are ignored\<close>

lemma handleInput_noop:
  "\<not> isPlaying s \<or> int (length (historyRef s)) \<le> nBack s \<or> hasResponded s
     \<Longrightarrow> handleInput cfg now action s = s"
  by (simp add: handleInput_def)

lemma handleInput_responded:
  "\<not> (\<not> isPlaying s \<or> int (length (historyRef s)) \<le> nBack s \<or> hasResponded s)
     \<Longrightarrow> hasResponded (handleInput cfg now action s)"
  by (simp add: handleInput_def Let_def split: option.splits)

lemma handleInput_exState:
  "score (handleInput exCfg 4500 match exState) = 25"
  "hasResponded (handleInput exCfg 4500 match exState)"
  "map_option delay (turnTimer (handleInput exCfg 4500 match exState)) = Some 500"
  by code_simp+

text \<open>
  Claim C6. \<open>handleInput\<close> returns the state it was given, every field of it, when the
  session is not playing, when the history is no longer than \<open>nBack\<close>, or when a response
  has been recorded for the current turn. A second call with no \<open>nextTurn\<close> in between,
  whatever its action, time and configuration, changes nothing after the first.
\<close>

theorem handleInput_ignored:
  "(\<not> isPlaying s \<or> int (length (historyRef s)) \<le> nBack s \<or> hasResponded s
      \<longrightarrow> handleInput cfg now action s = s)
   \<and> handleInput cfg' now' action' (handleInput cfg now action s) = handleInput cfg now action s"
proof (cases "\<not> isPlaying s \<or> int (length (historyRef s)) \<le> nBack s \<or> hasResponded s")
  case True
  then have "handleInput cfg now action s = s" by (rule handleInput_noop)
  moreover from True have "handleInput cfg' now' action' s = s" by (rule handleInput_noop)
  ultimately show ?thesis by simp
next
  case False
  then have "hasResponded (handleInput cfg now action s)" by (rule handleInput_responded)
  then have "handleInput cfg' now' action' (handleInput cfg now action s)
      = handleInput cfg now action s"
    by (simp add: handleInput_noop)
  with False show ?thesis by blast
qed

text \<open>
  A stopped session ignores the response; in the running example the first response
  scores 25 and the second is ignored.
\<close>

theorem handleInput_ignored_witness:
  "\<not> isPlaying (stopGame exState)
   \<and> handleInput exCfg 4500 match (stopGame exState) = stopGame exState
   \<and> score exState = 0 \<and> score (handleInput exCfg 4500 match exState) = 25
   \<and> handleInput exCfg 4600 non_match (handleInput exCfg 4500 match exState)
       = handleInput exCfg 4500 match exState"
proof -
  have h: "\<not> isPlaying (stopGame exState)" by (simp add: stopGame_def)
  have 1: "handleInput exCfg 4500 match (stopGame exState) = stopGame exState"
    using handleInput_ignored [of "stopGame exState" exCfg 4500 match] h by blast
  have 2: "handleInput exCfg 4600 non_match (handleInput exCfg 4500 match exState)
       = handleInput exCfg 4500 match exState"
    using handleInput_ignored [of exState exCfg 4500 match exCfg 4600 non_match] by blast
  have 3: "score exState = 0" by (simp add: exState_def)
  show ?thesis using h 1 2 3 handleInput_exState(1) by blast
qed

section \<open>Penalties\<close>

text \<open>
  A response that \<open>handleInput\<close> accepts and finds incorrect takes 5 from the score and adds
  one to both mistake counters; and so does the miss check of a \<open>nextTurn\<close>, exactly when
  the call is not the initial one, the history is longer than the level of the render of
  that \<open>nextTurn\<close>, and no response was recorded.
\<close>

lemma incorrect_response_penalty:
  assumes "isPlaying s" and "nBack s < int (length (historyRef s))" and "\<not> hasResponded s"
    and "responseCorrect cfg s action = Some False"
  shows "score (handleInput cfg now action s) = score s - 5"
    and "scoreRef (handleInput cfg now action s) = scoreRef s - 5"
    and "totalMistakes (handleInput cfg now action s) = totalMistakes s + 1"
    and "blockMistakes (handleInput cfg now action s) = blockMistakes s + 1"
  using assms by (simp_all add: handleInput_def Let_def)

lemma missCheck_of_render:
  "missCheck isReset n s
     = (if \<not> isReset \<and> int (length (historyRef s)) > n \<and> \<not> hasResponded s
        then s\<lparr> score := score s - 5, scoreRef := scoreRef s - 5,
                totalMistakes := totalMistakes s + 1,
                blockMistakes := blockMistakes s + 1 \<rparr>
        else s)"
  by (simp add: missCheck_def isMiss_def)

lemma nBackPlus_fields:
  "\<not> autoProgress cfg \<Longrightarrow> nBack (nBackPlus cfg s) = nBack s + 1"
  "isPlaying (nBackPlus cfg s) = isPlaying s"
  "hasResponded (nBackPlus cfg s) = hasResponded s"
  "historyRef (nBackPlus cfg s) = historyRef s"
  "score (nBackPlus cfg s) = score s"
  "totalMistakes (nBackPlus cfg s) = totalMistakes s"
  "blockMistakes (nBackPlus cfg s) = blockMistakes s"
  "turnTimer (nBackPlus cfg s) = turnTimer s"
  "lastStroopText (nBackPlus cfg s) = lastStroopText s"
  by (simp_all add: nBackPlus_def)

lemma response_ignored_at_level:
  "int (length (historyRef s)) \<le> nBack s \<Longrightarrow> handleInput cfg now action s = s"
  by (simp add: handleInput_def)

text \<open>
  Claim C9 fails on the code. With auto-progress and the timer off, a session is started
  at level 1 and the second turn is shown; the timer pending then belongs to the render
  of level 1. The player presses \<open>+\<close>, so the live level is 2. The history has two
  stimuli, which does not exceed the level, and \<open>handleInput\<close> ignores any response
  (\<open>response_ignored_at_level\<close>). When the timer fires, the miss check compares the history
  with level 1 and charges a miss: the score goes from 0 to -5 and both mistake counters
  to 1.
\<close>

theorem stale_render_charges_miss:
  "\<not> autoProgress exManualCfg \<and> \<not> useTimer exManualCfg
   \<and> (\<exists>s1 sh rs1 s2 rs2 s4 rs4.
         startGame exManualCfg 0 [] (exFirstDraws @ exSecondDraws @ exFirstDraws) (exIdle 1)
           = Some (s1, sh, rs1)
       \<and> turnTimerFires 3500 rs1 s1 = Some (s2, rs2)
       \<and> isPlaying (nBackPlus exManualCfg s2) \<and> \<not> hasResponded (nBackPlus exManualCfg s2)
       \<and> nBack (nBackPlus exManualCfg s2) = 2
       \<and> length (historyRef (nBackPlus exManualCfg s2)) = 2
       \<and> score (nBackPlus exManualCfg s2) = 0
       \<and> totalMistakes (nBackPlus exManualCfg s2) = 0
       \<and> turnTimerFires 7000 rs2 (nBackPlus exManualCfg s2) = Some (s4, rs4)
       \<and> score s4 = - 5 \<and> totalMistakes s4 = 1 \<and> blockMistakes s4 = 1)"
proof -
  have c: "activeRules exManualCfg = [Color]" "\<not> distractorsEnabled exManualCfg"
    "\<not> perspectiveMode exManualCfg" "\<not> controlSwapEnabled exManualCfg"
    and a: "\<not> autoProgress exManualCfg" "\<not> useTimer exManualCfg"
    by (simp_all add: exManualCfg_def exCfg_def)
  have p: "checkProgression exManualCfg n s = s" for n s
    using a by (simp add: checkProgression_def)
  from startGame_exIdle [OF c, of 0 "[]" "exSecondDraws @ exFirstDraws" 1] obtain s1 where
    1: "startGame exManualCfg 0 [] (exFirstDraws @ exSecondDraws @ exFirstDraws) (exIdle 1)
          = Some (s1, [], exSecondDraws @ exFirstDraws)"
    and f1: "isPlaying s1" "score s1 = 0" "totalMistakes s1 = 0" "blockMistakes s1 = 0"
      "nBack s1 = 1" "length (historyRef s1) = 1" "\<not> hasResponded s1"
      "lastStroopText s1 = ''RED''"
      "turnTimer s1 = Some \<lparr> delay = INTERVAL_MS, renderConfig = exManualCfg, renderNBack = 1 \<rparr>"
    by auto
  from nextTurn_second_returns [OF c f1(8)] obtain s2 where
    n2: "nextTurn exManualCfg 1 3500 (exSecondDraws @ exFirstDraws) False s1
           = Some (s2, exFirstDraws)"
    and l2: "lastStroopText s2 = ''BLUE''"
    by blast
  have 2: "turnTimerFires 3500 (exSecondDraws @ exFirstDraws) s1 = Some (s2, exFirstDraws)"
    using n2 f1(9) by (simp add: turnTimerFires_def)
  have m1: "missCheck False 1 s1 = s1"
    using f1(6) by (simp add: missCheck_of_render)
  note f2 = nextTurn_fields [OF n2, unfolded p m1]
  let ?s3 = "nBackPlus exManualCfg s2"
  have f3: "isPlaying ?s3" "\<not> hasResponded ?s3" "nBack ?s3 = 2"
    "length (historyRef ?s3) = 2" "score ?s3 = 0" "totalMistakes ?s3 = 0"
    "blockMistakes ?s3 = 0" "lastStroopText ?s3 \<noteq> ''RED''"
    "turnTimer ?s3 = Some \<lparr> delay = INTERVAL_MS, renderConfig = exManualCfg, renderNBack = 1 \<rparr>"
    using f2 f1 l2 a(1) by (simp_all add: nBackPlus_fields)
  from nextTurn_first_returns [OF c f3(8)] obtain s4 where
    n4: "nextTurn exManualCfg 1 7000 (exFirstDraws @ []) False ?s3 = Some (s4, [])"
    by blast
  have 4: "turnTimerFires 7000 exFirstDraws ?s3 = Some (s4, [])"
    using n4 f3(9) by (simp add: turnTimerFires_def)
  have m3: "score (missCheck False 1 ?s3) = - 5" "totalMistakes (missCheck False 1 ?s3) = 1"
    "blockMistakes (missCheck False 1 ?s3) = 1"
    using f3 by (simp_all add: missCheck_of_render)
  note f4 = nextTurn_fields [OF n4, unfolded p]
  have "score s4 = - 5" "totalMistakes s4 = 1" "blockMistakes s4 = 1"
    using f4 m3 by simp_all
  with a 1 2 f3 4 show ?thesis by blast
qed

section \<open>Spatial perspective\<close>

lemma sort_pair_commute: "sort [a, b] = sort [b, a]" for a b :: string
  by (cases "a \<le> b"; cases "b \<le> a") auto

text \<open>
  Claim C7. Under spatial perspective with the \<open>object\<close> strategy, the transformed colour
  of a stimulus depends only on the unordered pair of its colour and back colour: two
  stimuli with the same pair get the same value, whatever their observer positions, their
  other attributes and the relabeling tables.
\<close>

theorem spatial_object_color_unordered:
  assumes "perspectiveMode cfg" and "perspectiveType cfg = spatial"
    and "spatialMatchMode cfg = object"
    and "{color s, backColor s} = {color s', backColor s'}"
  shows "getTransformedValue cfg pm s Color = getTransformedValue cfg pm' s' Color"
proof -
  from assms(4) consider "color s = color s' \<and> backColor s = backColor s'"
    | "color s = backColor s' \<and> backColor s = color s'"
    by (auto simp: doubleton_eq_iff)
  then have "sort [colorName (color s), colorName (backColor s)]
      = sort [colorName (color s'), colorName (backColor s')]"
  proof cases
    case 1
    then show ?thesis by simp
  next
    case 2
    then show ?thesis
      using sort_pair_commute [of "colorName (color s')" "colorName (backColor s')"] by simp
  qed
  then show ?thesis
    using assms(1-3) by (simp add: getTransformedValue_def Let_def)
qed

text \<open>
  A red cube with a blue back seen by \<open>me\<close> and a blue cube with a red back seen from
  \<open>opposite\<close> both come out as \<open>blue-red\<close>.
\<close>

theorem spatial_object_color_unordered_witness:
  "perspectiveMode exObjectCfg \<and> perspectiveType exObjectCfg = spatial
   \<and> spatialMatchMode exObjectCfg = object
   \<and> {color (exStim red blue center me 1000), backColor (exStim red blue center me 1000)}
       = {color (exStim blue red left opposite 4500), backColor (exStim blue red left opposite 4500)}
   \<and> getTransformedValue exObjectCfg Map.empty (exStim red blue center me 1000) Color
       = Some ''blue-red''
   \<and> getTransformedValue exObjectCfg exMapping (exStim blue red left opposite 4500) Color
       = Some ''blue-red''"
proof -
  have h: "perspectiveMode exObjectCfg" "perspectiveType exObjectCfg = spatial"
    "spatialMatchMode exObjectCfg = object"
    "{color (exStim red blue center me 1000), backColor (exStim red blue center me 1000)}
       = {color (exStim blue red left opposite 4500), backColor (exStim blue red left opposite 4500)}"
    by (auto simp: exObjectCfg_def exCfg_def exStim_def)
  have v: "getTransformedValue exObjectCfg Map.empty (exStim red blue center me 1000) Color
       = Some ''blue-red''"
    by (simp add: getTransformedValue_def exObjectCfg_def exCfg_def exStim_def joinDash_def)
  show ?thesis
    using h v spatial_object_color_unordered [OF h, where pm = Map.empty and pm' = exMapping] by simp
qed

text \<open>
  Claim C8. Under spatial perspective the transformed position is the raw position with
  the \<open>object\<close> strategy; with the \<open>view\<close> strategy it is the raw position for the observer
  \<open>me\<close>, and for the observer \<open>opposite\<close> it is \<open>right\<close> for \<open>left\<close>, \<open>left\<close> for \<open>right\<close> and
  \<open>center\<close> for \<open>center\<close>.
\<close>

theorem spatial_position:
  assumes "perspectiveMode cfg" and "perspectiveType cfg = spatial"
  shows "(spatialMatchMode cfg = object \<longrightarrow>
            getTransformedValue cfg pm stim Position = Some (positionName (position stim)))
       \<and> (spatialMatchMode cfg = view \<and> observerPos stim = me \<longrightarrow>
            getTransformedValue cfg pm stim Position = Some (positionName (position stim)))
       \<and> (spatialMatchMode cfg = view \<and> observerPos stim = opposite \<longrightarrow>
            getTransformedValue cfg pm stim Position
              = Some (positionName (case position stim of
                                      left \<Rightarrow> right | center \<Rightarrow> center | right \<Rightarrow> left)))"
  using assms by (cases "position stim") (simp_all add: getTransformedValue_def)

theorem spatial_position_witness:
  "perspectiveMode exViewCfg \<and> perspectiveType exViewCfg = spatial
   \<and> spatialMatchMode exViewCfg = view \<and> spatialMatchMode exObjectCfg = object
   \<and> getTransformedValue exViewCfg Map.empty (exStim red blue left opposite 1000) Position
        = Some ''right''
   \<and> getTransformedValue exViewCfg Map.empty (exStim red blue right opposite 1000) Position
        = Some ''left''
   \<and> getTransformedValue exViewCfg Map.empty (exStim red blue center opposite 1000) Position
        = Some ''center''
   \<and> getTransformedValue exViewCfg Map.empty (exStim red blue left me 1000) Position
        = Some ''left''
   \<and> getTransformedValue exObjectCfg Map.empty (exStim red blue left opposite 1000) Position
        = Some ''left''"
proof -
  have h: "perspectiveMode exViewCfg" "perspectiveType exViewCfg = spatial"
    and m: "spatialMatchMode exViewCfg = view"
    and h': "perspectiveMode exObjectCfg" "perspectiveType exObjectCfg = spatial"
    and m': "spatialMatchMode exObjectCfg = object"
    by (simp_all add: exViewCfg_def exObjectCfg_def exCfg_def)
  show ?thesis
    using h m h' m'
      spatial_position [OF h, where stim = "exStim red blue left opposite 1000" and pm = Map.empty]
      spatial_position [OF h, where stim = "exStim red blue right opposite 1000" and pm = Map.empty]
      spatial_position [OF h, where stim = "exStim red blue center opposite 1000" and pm = Map.empty]
      spatial_position [OF h, where stim = "exStim red blue left me 1000" and pm = Map.empty]
      spatial_position [OF h', where stim = "exStim red blue left opposite 1000" and pm = Map.empty]
    by (simp add: exStim_def)
qed


section \<open>The active rules stay non-empty\<close>

lemma toggleRule_blocked:
  "perspectiveMode cfg \<and> perspectiveType cfg = spatial \<and> (rule = Shape \<or> rule = Size)
     \<Longrightarrow> toggleRule (cfg, stored) rule = (cfg, stored)"
  by (simp add: toggleRule_def)

lemma toggleRule_unblocked:
  assumes "\<not> (perspectiveMode cfg \<and> perspectiveType cfg = spatial \<and> (rule = Shape \<or> rule = Size))"
  shows "toggleRule (cfg, stored) rule =
     (let newRules = (if rule \<in> set (activeRules cfg)
                      then (if filter (\<lambda>r. r \<noteq> rule) (activeRules cfg) = []
                            then activeRules cfg
                            else filter (\<lambda>r. r \<noteq> rule) (activeRules cfg))
                      else activeRules cfg @ [rule])
      in (cfg\<lparr> activeRules := newRules \<rparr>, Some newRules))"
proof -
  have e: "toggleRule (cfg, stored) rule =
     (cfg\<lparr> activeRules :=
         (if length (if rule \<in> set (activeRules cfg)
                     then filter (\<lambda>r. r \<noteq> rule) (activeRules cfg)
                     else activeRules cfg @ [rule]) = 0
          then (if length (activeRules cfg) > 0 then activeRules cfg else [Color])
          else (if rule \<in> set (activeRules cfg)
                then filter (\<lambda>r. r \<noteq> rule) (activeRules cfg)
                else activeRules cfg @ [rule])) \<rparr>,
      Some (if length (if rule \<in> set (activeRules cfg)
                     then filter (\<lambda>r. r \<noteq> rule) (activeRules cfg)
                     else activeRules cfg @ [rule]) = 0
          then (if length (activeRules cfg) > 0 then activeRules cfg else [Color])
          else (if rule \<in> set (activeRules cfg)
                then filter (\<lambda>r. r \<noteq> rule) (activeRules cfg)
                else activeRules cfg @ [rule])))"
    unfolding toggleRule_def Let_def fst_conv if_not_P [OF assms] by (rule refl)
  show ?thesis
  proof (cases "rule \<in> set (activeRules cfg)")
    case True
    then have "activeRules cfg \<noteq> []" by auto
    with True show ?thesis unfolding e by (simp add: Let_def)
  next
    case False
    then show ?thesis unfolding e by (simp add: Let_def)
  qed
qed

lemma toggleRule_result:
  assumes "activeRules cfg \<noteq> []"
  shows "activeRules (fst (toggleRule (cfg, stored) rule)) \<noteq> []"
    and "activeRules (fst (toggleRule (cfg, stored) rule)) = activeRules cfg
       \<or> activeRules (fst (toggleRule (cfg, stored) rule))
            = filter (\<lambda>r. r \<noteq> rule) (activeRules cfg)
       \<or> activeRules (fst (toggleRule (cfg, stored) rule)) = activeRules cfg @ [rule]"
    and "filter (\<lambda>r. r \<noteq> rule) (activeRules cfg) = []
       \<Longrightarrow> activeRules (fst (toggleRule (cfg, stored) rule)) = activeRules cfg"
proof -
  let ?b = "perspectiveMode cfg \<and> perspectiveType cfg = spatial \<and> (rule = Shape \<or> rule = Size)"
  let ?r = "activeRules (fst (toggleRule (cfg, stored) rule))"
  let ?f = "filter (\<lambda>r. r \<noteq> rule) (activeRules cfg)"
  have e: "?r = activeRules cfg
      \<or> (rule \<in> set (activeRules cfg) \<and> ?f = [] \<and> ?r = activeRules cfg)
      \<or> (rule \<in> set (activeRules cfg) \<and> ?f \<noteq> [] \<and> ?r = ?f)
      \<or> (rule \<notin> set (activeRules cfg) \<and> ?r = activeRules cfg @ [rule])"
  proof (cases ?b)
    case True
    then show ?thesis by (simp add: toggleRule_blocked)
  next
    case False
    show ?thesis unfolding toggleRule_unblocked [OF False] by (auto simp: Let_def)
  qed
  have u: "?f = [] \<Longrightarrow> rule \<in> set (activeRules cfg)"
    using assms by (cases "activeRules cfg") (auto split: if_splits)
  have w: "?f = [] \<Longrightarrow> rule \<notin> set (activeRules cfg) \<Longrightarrow> False"
    using u by blast
  show "?r \<noteq> []" using e assms by auto
  show "?r = activeRules cfg \<or> ?r = ?f \<or> ?r = activeRules cfg @ [rule]"
    using e by blast
  show "?r = activeRules cfg" if "?f = []"
    using e that w by blast
qed

lemma reachableConfig_nonempty: "reachableConfig cfg \<Longrightarrow> activeRules cfg \<noteq> []"
proof (induction rule: reachableConfig.induct)
  case initial
  show ?case by (simp add: initialConfig_def)
next
  case (load cfg savedRules)
  then show ?case by (auto simp: loadSavedRules_def split: option.splits)
next
  case (setOption cfg cfg')
  then show ?case by simp
next
  case (toggle cfg stored rule)
  from toggle.IH show ?case by (rule toggleRule_result(1))
qed

text \<open>
  Claim C10. The options of a session start from the defaults and change only through
  \<open>loadSettings\<close>, \<open>toggleRule\<close> and the setters of the other options. After any call of
  \<open>toggleRule\<close> on such options the list of active rules is non-empty (and the options
  are again such options). A call that would deselect the only remaining active attribute
  leaves the list as it was. The new list is the old one, the old one without the rule,
  or the old one with the rule appended, so \<open>[color]\<close> as a fallback is never what the
  call produces from a non-empty list.
\<close>

theorem toggleRule_nonempty:
  assumes "reachableConfig cfg"
  shows "let rules' = activeRules (fst (toggleRule (cfg, stored) rule))
         in rules' \<noteq> []
          \<and> 0 < length rules'
          \<and> (filter (\<lambda>r. r \<noteq> rule) (activeRules cfg) = [] \<longrightarrow> rules' = activeRules cfg)
          \<and> (rules' = activeRules cfg
              \<or> rules' = filter (\<lambda>r. r \<noteq> rule) (activeRules cfg)
              \<or> rules' = activeRules cfg @ [rule])
          \<and> reachableConfig (fst (toggleRule (cfg, stored) rule))"
proof -
  from assms have n: "activeRules cfg \<noteq> []" by (rule reachableConfig_nonempty)
  note r = toggleRule_result [OF n, where stored = stored and rule = rule]
  have "reachableConfig (fst (toggleRule (cfg, stored) rule))"
    using assms by (rule reachableConfig.toggle)
  with r show ?thesis unfolding Let_def by blast
qed

text \<open>
  The default options with the timer off, where \<open>color\<close> is the only active rule:
  deselecting it keeps \<open>[color]\<close>; selecting \<open>position\<close> appends it, and deselecting
  \<open>color\<close> then leaves \<open>[position]\<close>.
\<close>

theorem toggleRule_nonempty_witness:
  "reachableConfig exCfg
   \<and> activeRules exCfg = [Color]
   \<and> activeRules (fst (toggleRule (exCfg, None) Color)) = [Color]
   \<and> activeRules (fst (toggleRule (exCfg, None) Position)) = [Color, Position]
   \<and> reachableConfig (fst (toggleRule (exCfg, None) Position))
   \<and> activeRules (fst (toggleRule (toggleRule (exCfg, None) Position) Color)) = [Position]"
proof -
  have "activeRules exCfg = activeRules initialConfig"
    by (simp add: exCfg_def initialConfig_def)
  with reachableConfig.initial have h: "reachableConfig exCfg"
    by (rule reachableConfig.setOption)
  have a: "activeRules exCfg = [Color]" by (simp add: exCfg_def)
  have 1: "activeRules (fst (toggleRule (exCfg, None) Color)) = [Color]"
    using toggleRule_nonempty [OF h, of None Color] a by (simp add: Let_def)
  have 2: "reachableConfig (fst (toggleRule (exCfg, None) Position))"
    using toggleRule_nonempty [OF h, of None Position] by (simp add: Let_def)
  have 3: "activeRules (fst (toggleRule (exCfg, None) Position)) = [Color, Position]"
    by (simp add: toggleRule_def exCfg_def Let_def)
  have 4: "activeRules (fst (toggleRule (toggleRule (exCfg, None) Position) Color)) = [Position]"
    by (simp add: toggleRule_def exCfg_def Let_def)
  show ?thesis using h a 1 2 3 4 by simp
qed

end
